theory Spec2Isabelle
  imports Complex_Main "HOL-Library.Log_Nat"
begin

section \<open>JavaScript values used by the client\<close>

subsection \<open>Numbers\<close>

text \<open>
  Amounts are JavaScript numbers, IEEE 754 binary64 values. A number is modelled as the exact
  rational value of a double, or one of the three non-finite values; the two zeros are one
  value. The operations below are the ones \<^verbatim>\<open>ocr.tsx\<close> applies to amounts:
  \<^verbatim>\<open>+\<close>, \<^verbatim>\<open>/\<close>, \<^verbatim>\<open>*\<close>, \<^verbatim>\<open>>=\<close>, \<^verbatim>\<open><=\<close>, \<^verbatim>\<open>!x\<close> and \<^verbatim>\<open>x || 0\<close>.
\<close>

datatype jsnum = Fin rat | PosInf | NegInf | NaN

text \<open>
  Rounding of an exact result to binary64: to the nearest representable value, ties to the
  even significand. \<open>expo x\<close> is the binary exponent \<open>e\<close> of a positive \<open>x\<close>, the one with
  \<open>2 powi e \<le> x < 2 powi (e + 1)\<close>. Around \<open>x\<close> the doubles are \<open>2 powi (e - 52)\<close> apart,
  and \<open>2 powi (- 1074)\<close> apart in the subnormal range. A result that is \<open>2 powi 1024\<close> or
  more in magnitude after rounding overflows to an infinity.
\<close>

definition expo :: "rat \<Rightarrow> int" where
  "expo x =
     (let k = bitlen (fst (quotient_of x)) - bitlen (snd (quotient_of x))
      in if 2 powi k \<le> x then k else k - 1)"

definition rne :: "rat \<Rightarrow> int" where
  "rne y =
     (let f = \<lfloor>y\<rfloor>; d = y - of_int f
      in if d < 1 / 2 then f else if 1 / 2 < d then f + 1 else if even f then f else f + 1)"

definition round_pos :: "rat \<Rightarrow> rat" where
  "round_pos x =
     (let u = max (expo x - 52) (- 1074)
      in of_int (rne (x / 2 powi u)) * 2 powi u)"

definition round_rat :: "rat \<Rightarrow> rat" where
  "round_rat x = (if x = 0 then 0 else if 0 < x then round_pos x else - round_pos (- x))"

text \<open>The number \<open>2 ^ 1024\<close>, written out so that it need not be computed.\<close>

definition two_1024 :: rat where
  "two_1024 = 179769313486231590772930519078902473361797697894230657273430081157732675805500963132708477322407536021120113879871393357658789768814416622492847430639474124377767893424865485276302219601246094119453082952085005768838150682342462881473913110540827237163350510684586298239947245938479716304835356329624224137216"

definition overflow :: "rat \<Rightarrow> jsnum" where
  "overflow r =
     (if two_1024 \<le> r then PosInf else if r \<le> - two_1024 then NegInf else Fin r)"

definition round64 :: "rat \<Rightarrow> jsnum" where
  "round64 x = overflow (round_rat x)"

fun js_add :: "jsnum \<Rightarrow> jsnum \<Rightarrow> jsnum" where
  "js_add NaN _ = NaN"
| "js_add _ NaN = NaN"
| "js_add (Fin a) (Fin b) = round64 (a + b)"
| "js_add PosInf NegInf = NaN"
| "js_add NegInf PosInf = NaN"
| "js_add PosInf _ = PosInf"
| "js_add _ PosInf = PosInf"
| "js_add NegInf _ = NegInf"
| "js_add _ NegInf = NegInf"

text \<open>
  Division. A zero divisor is the positive zero here: every divisor in the client comes out
  of \<^verbatim>\<open>x || 0\<close>, which turns both zeros and NaN into \<^verbatim>\<open>+0\<close>.
\<close>

fun js_div :: "jsnum \<Rightarrow> jsnum \<Rightarrow> jsnum" where
  "js_div NaN _ = NaN"
| "js_div _ NaN = NaN"
| "js_div (Fin a) (Fin b) =
     (if b = 0 then (if a = 0 then NaN else if 0 < a then PosInf else NegInf)
      else round64 (a / b))"
| "js_div (Fin a) PosInf = Fin 0"
| "js_div (Fin a) NegInf = Fin 0"
| "js_div PosInf (Fin b) = (if 0 \<le> b then PosInf else NegInf)"
| "js_div NegInf (Fin b) = (if 0 \<le> b then NegInf else PosInf)"
| "js_div _ _ = NaN"

fun js_mul :: "jsnum \<Rightarrow> jsnum \<Rightarrow> jsnum" where
  "js_mul NaN _ = NaN"
| "js_mul _ NaN = NaN"
| "js_mul (Fin a) (Fin b) = round64 (a * b)"
| "js_mul PosInf (Fin b) = (if b = 0 then NaN else if 0 < b then PosInf else NegInf)"
| "js_mul NegInf (Fin b) = (if b = 0 then NaN else if 0 < b then NegInf else PosInf)"
| "js_mul (Fin a) PosInf = (if a = 0 then NaN else if 0 < a then PosInf else NegInf)"
| "js_mul (Fin a) NegInf = (if a = 0 then NaN else if 0 < a then NegInf else PosInf)"
| "js_mul PosInf PosInf = PosInf"
| "js_mul NegInf NegInf = PosInf"
| "js_mul PosInf NegInf = NegInf"
| "js_mul NegInf PosInf = NegInf"

text \<open>\<^verbatim>\<open>a <= b\<close>; every comparison with NaN is false.\<close>

fun js_le :: "jsnum \<Rightarrow> jsnum \<Rightarrow> bool" where
  "js_le NaN _ = False"
| "js_le _ NaN = False"
| "js_le (Fin a) (Fin b) = (a \<le> b)"
| "js_le NegInf _ = True"
| "js_le _ PosInf = True"
| "js_le _ _ = False"

text \<open>\<^verbatim>\<open>a < b\<close>.\<close>

fun js_lt :: "jsnum \<Rightarrow> jsnum \<Rightarrow> bool" where
  "js_lt NaN _ = False"
| "js_lt _ NaN = False"
| "js_lt (Fin a) (Fin b) = (a < b)"
| "js_lt PosInf _ = False"
| "js_lt _ NegInf = False"
| "js_lt _ _ = True"

text \<open>\<^verbatim>\<open>a >= b\<close> is \<^verbatim>\<open>b <= a\<close>.\<close>

definition js_ge :: "jsnum \<Rightarrow> jsnum \<Rightarrow> bool" where
  "js_ge a b = js_le b a"

text \<open>Truthiness of a number: \<^verbatim>\<open>0\<close> and \<^verbatim>\<open>NaN\<close> are falsy.\<close>

fun truthy :: "jsnum \<Rightarrow> bool" where
  "truthy (Fin a) = (a \<noteq> 0)"
| "truthy NaN = False"
| "truthy _ = True"

text \<open>
  \<^verbatim>\<open>field || d\<close> on a document field that holds a number or is missing
  (\<^verbatim>\<open>undefined\<close>, here \<open>None\<close>).
\<close>

fun or_default :: "jsnum option \<Rightarrow> jsnum \<Rightarrow> jsnum" where
  "or_default None d = d"
| "or_default (Some x) d = (if truthy x then x else d)"

subsection \<open>Strings\<close>

text \<open>
  \<^verbatim>\<open>Number.prototype.toString\<close> on an integer: its decimal digits, with a minus sign
  when negative.
\<close>

definition digit_char :: "nat \<Rightarrow> char" where
  "digit_char d =
     (if d = 0 then CHR ''0'' else if d = 1 then CHR ''1'' else if d = 2 then CHR ''2''
      else if d = 3 then CHR ''3'' else if d = 4 then CHR ''4'' else if d = 5 then CHR ''5''
      else if d = 6 then CHR ''6'' else if d = 7 then CHR ''7'' else if d = 8 then CHR ''8''
      else CHR ''9'')"

fun digits :: "nat \<Rightarrow> string" where
  "digits n = (if n < 10 then [digit_char n] else digits (n div 10) @ [digit_char (n mod 10)])"

declare digits.simps [simp del]

definition toString :: "int \<Rightarrow> string" where
  "toString i = (if i < 0 then CHR ''-'' # digits (nat (- i)) else digits (nat i))"

text \<open>\<^verbatim>\<open>s.padStart(n, '0')\<close>.\<close>

definition padStart :: "nat \<Rightarrow> string \<Rightarrow> string" where
  "padStart n s = replicate (n - length s) (CHR ''0'') @ s"

text \<open>
  \<^verbatim>\<open>s.trim()\<close>. Strings are lists of 8-bit characters here, so the white space and
  line terminators of ECMAScript are the ones below U+0100: TAB, LF, VT, FF, CR, SP and
  NBSP.
\<close>

definition js_whitespace :: "char \<Rightarrow> bool" where
  "js_whitespace c = (of_char c \<in> {9, 10, 11, 12, 13, 32, 160 :: nat})"

definition trim :: "string \<Rightarrow> string" where
  "trim s = rev (dropWhile js_whitespace (rev (dropWhile js_whitespace s)))"

subsection \<open>Dates\<close>

text \<open>
  A \<^verbatim>\<open>Date\<close> is its time value, the milliseconds since the epoch (UTC). The functions
  below are the abstract operations of ECMAScript (section ``Date Objects'') behind
  \<^verbatim>\<open>getFullYear\<close>, \<^verbatim>\<open>getMonth\<close>, \<^verbatim>\<open>getDay\<close>, \<^verbatim>\<open>toISOString\<close> and the
  \<^verbatim>\<open>Date(year, month, day, ...)\<close> constructor. The local time zone is the function
  \<open>tza\<close>, ECMAScript's \<^verbatim>\<open>LocalTZA(t, isUTC)\<close>: the offset in milliseconds in force at the
  UTC time \<open>t\<close> when \<open>isUTC\<close> is true, and at the local time \<open>t\<close> when it is false, so
  that the offset may change over the year (daylight saving). The range check of
  \<^verbatim>\<open>TimeClip\<close> is left out: wall-clock times are far inside the range.
\<close>

type_synonym zone = "int \<Rightarrow> bool \<Rightarrow> int"

text \<open>A zone whose offset never changes.\<close>

definition fixed_zone :: "int \<Rightarrow> zone" where
  "fixed_zone offset t isUTC = offset"

definition msPerDay :: int where
  "msPerDay = 86400000"

definition Day :: "int \<Rightarrow> int" where
  "Day t = t div msPerDay"

definition DaysInYear :: "int \<Rightarrow> int" where
  "DaysInYear y =
     (if y mod 4 \<noteq> 0 then 365 else if y mod 100 \<noteq> 0 then 366
      else if y mod 400 \<noteq> 0 then 365 else 366)"

definition DayFromYear :: "int \<Rightarrow> int" where
  "DayFromYear y =
     365 * (y - 1970) + (y - 1969) div 4 - (y - 1901) div 100 + (y - 1601) div 400"


text \<open>
  \<^verbatim>\<open>YearFromTime(t)\<close> is the largest year whose first day is not after \<open>t\<close>. It is
  computed from an estimate that is off by one year at most.
\<close>

definition YearFromDay :: "int \<Rightarrow> int" where
  "YearFromDay d =
     (let y = 1970 + (400 * d) div 146097
      in if d < DayFromYear y then y - 1
         else if DayFromYear (y + 1) \<le> d then y + 1
         else y)"

definition YearFromTime :: "int \<Rightarrow> int" where
  "YearFromTime t = YearFromDay (Day t)"

definition InLeapYear :: "int \<Rightarrow> int" where
  "InLeapYear t = (if DaysInYear (YearFromTime t) = 366 then 1 else 0)"

definition DayWithinYear :: "int \<Rightarrow> int" where
  "DayWithinYear t = Day t - DayFromYear (YearFromTime t)"

definition MonthFromTime :: "int \<Rightarrow> int" where
  "MonthFromTime t =
     (let d = DayWithinYear t; l = InLeapYear t
      in if d < 31 then 0
         else if d < 59 + l then 1
         else if d < 90 + l then 2
         else if d < 120 + l then 3
         else if d < 151 + l then 4
         else if d < 181 + l then 5
         else if d < 212 + l then 6
         else if d < 243 + l then 7
         else if d < 273 + l then 8
         else if d < 304 + l then 9
         else if d < 334 + l then 10
         else 11)"

text \<open>The number of days of a year before its month \<open>m\<close> (0 to 11); \<open>l\<close> is 1 in a leap year.\<close>

definition DaysBeforeMonth :: "int \<Rightarrow> int \<Rightarrow> int" where
  "DaysBeforeMonth l m =
     (if m = 0 then 0
      else if m = 1 then 31
      else if m = 2 then 59 + l
      else if m = 3 then 90 + l
      else if m = 4 then 120 + l
      else if m = 5 then 151 + l
      else if m = 6 then 181 + l
      else if m = 7 then 212 + l
      else if m = 8 then 243 + l
      else if m = 9 then 273 + l
      else if m = 10 then 304 + l
      else 334 + l)"

definition DateFromTime :: "int \<Rightarrow> int" where
  "DateFromTime t = DayWithinYear t - DaysBeforeMonth (InLeapYear t) (MonthFromTime t) + 1"

definition WeekDay :: "int \<Rightarrow> int" where
  "WeekDay t = (Day t + 4) mod 7"

definition LocalTime :: "zone \<Rightarrow> int \<Rightarrow> int" where
  "LocalTime tza t = t + tza t True"

definition UTC :: "zone \<Rightarrow> int \<Rightarrow> int" where
  "UTC tza t = t - tza t False"

definition MakeTime :: "int \<Rightarrow> int \<Rightarrow> int \<Rightarrow> int \<Rightarrow> int" where
  "MakeTime h m s ms = h * 3600000 + m * 60000 + s * 1000 + ms"

definition MakeDay :: "int \<Rightarrow> int \<Rightarrow> int \<Rightarrow> int" where
  "MakeDay year month date =
     (let ym = year + month div 12; mn = month mod 12
      in DayFromYear ym + DaysBeforeMonth (if DaysInYear ym = 366 then 1 else 0) mn + date - 1)"

definition MakeDate :: "int \<Rightarrow> int \<Rightarrow> int" where
  "MakeDate day time = day * msPerDay + time"

text \<open>
  \<^verbatim>\<open>new Date(year, month, date, hours, minutes, seconds)\<close> in local time. A year from 0
  to 99 stands for 1900 + year.
\<close>

definition newDate :: "zone \<Rightarrow> int \<Rightarrow> int \<Rightarrow> int \<Rightarrow> int \<Rightarrow> int \<Rightarrow> int \<Rightarrow> int" where
  "newDate tza year month date hours minutes seconds =
     (let yr = (if 0 \<le> year \<and> year \<le> 99 then 1900 + year else year)
      in UTC tza (MakeDate (MakeDay yr month date) (MakeTime hours minutes seconds 0)))"

definition getFullYear :: "zone \<Rightarrow> int \<Rightarrow> int" where
  "getFullYear tza t = YearFromTime (LocalTime tza t)"

definition getMonth :: "zone \<Rightarrow> int \<Rightarrow> int" where
  "getMonth tza t = MonthFromTime (LocalTime tza t)"

definition getDay :: "zone \<Rightarrow> int \<Rightarrow> int" where
  "getDay tza t = WeekDay (LocalTime tza t)"

text \<open>
  \<^verbatim>\<open>toISOString().split('T')[0]\<close>: the UTC date, \<^verbatim>\<open>YYYY-MM-DD\<close>, with a sign and six
  digits for a year outside 0 to 9999.
\<close>

definition isoYear :: "int \<Rightarrow> string" where
  "isoYear y =
     (if 0 \<le> y \<and> y \<le> 9999 then padStart 4 (digits (nat y))
      else (if y < 0 then CHR ''-'' else CHR ''+'') # padStart 6 (digits (nat \<bar>y\<bar>)))"

definition toISODate :: "int \<Rightarrow> string" where
  "toISODate t =
     isoYear (YearFromTime t) @ ''-'' @ padStart 2 (toString (MonthFromTime t + 1))
       @ ''-'' @ padStart 2 (toString (DateFromTime t))"

section \<open>Period keys\<close>

text \<open>
  \<^verbatim>\<open>getCurrentPeriod(type)\<close> of \<^verbatim>\<open>ocr.tsx\<close>. It reads the wall clock with
  \<^verbatim>\<open>new Date()\<close>; the clock value \<open>now\<close> and the zone \<open>tza\<close> are arguments here.
  \<^verbatim>\<open>Math.floor\<close> and \<^verbatim>\<open>Math.ceil\<close> are applied to exact quotients.
\<close>

definition weekNumber :: "zone \<Rightarrow> int \<Rightarrow> int" where
  "weekNumber tza now =
     (let startOfYear = newDate tza (getFullYear tza now) 0 1 0 0 0;
          days = \<lfloor>rat_of_int (now - startOfYear) / rat_of_int (24 * 60 * 60 * 1000)\<rfloor>
      in \<lceil>rat_of_int (days + getDay tza startOfYear + 1) / 7\<rceil>)"

definition getCurrentPeriod :: "zone \<Rightarrow> int \<Rightarrow> string \<Rightarrow> string" where
  "getCurrentPeriod tza now type =
     (if type = ''daily'' then toISODate now
      else if type = ''weekly'' then
        toString (getFullYear tza now) @ ''-W'' @ padStart 2 (toString (weekNumber tza now))
      else if type = ''monthly'' then
        toString (getFullYear tza now) @ ''-'' @ padStart 2 (toString (getMonth tza now + 1))
      else [])"




section \<open>The client: documents and screen state\<close>

text \<open>
  The documents of the \<^verbatim>\<open>expenses\<close>, \<^verbatim>\<open>budgets\<close> and \<^verbatim>\<open>users\<close> collections, with
  the fields \<^verbatim>\<open>ocr.tsx\<close> reads or writes. A field the code guards with \<^verbatim>\<open>|| 0\<close> or
  compares with \<^verbatim>\<open>!==\<close> may be missing and is an option. A collection is the list of
  its documents, and a document reference is the position in that list.
\<close>

record LocationData =
  latitude :: jsnum
  longitude :: jsnum
  accuracy :: "jsnum option"
  timestamp :: jsnum
  address :: "string option"
  street :: "string option"
  city :: "string option"
  region :: "string option"
  country :: "string option"

record ExpenseData =
  amount :: jsnum
  merchantName :: string
  referenceId :: string
  transactionDate :: string
  description :: string
  category :: string

record stored_location =
  l_latitude :: jsnum
  l_longitude :: jsnum
  l_address :: "string option"
  l_city :: "string option"

record expense =
  e_userId :: string
  e_amount :: "jsnum option"
  e_merchantName :: string
  e_referenceId :: string
  e_transactionDate :: string
  e_description :: string
  e_category :: string
  e_location :: "stored_location option"
  e_extractedText :: string
  e_createdAt :: int
  e_updatedAt :: int

record budget =
  b_userId :: string
  b_category :: string
  budgetType :: string
  budgetAmount :: "jsnum option"
  currentPeriod :: "string option"
  currentSpent :: "jsnum option"
  isActive :: bool
  b_updatedAt :: int

text \<open>
  A user document: \<open>overspendingAlerts\<close> is what
  \<^verbatim>\<open>userData?.preferences?.notifications?.overspendingAlerts\<close> reads, \<open>None\<close> when any
  part of the path is missing.
\<close>

record user_doc =
  overspendingAlerts :: "jsnum option"

text \<open>
  The calls of \<^verbatim>\<open>Alert.alert\<close>, by title: \<^verbatim>\<open>Error\<close> with its message, \<^verbatim>\<open>Budget
  Exceeded!\<close> (budget type, category, spent, budget amount), \<^verbatim>\<open>Budget Alert\<close>
  (percentage, budget type, category, spent, budget amount), \<^verbatim>\<open>Overspending Alert!\<close>
  (monthly total, limit) and \<^verbatim>\<open>Success!\<close> (amount). The numbers are kept as numbers, not
  formatted with \<^verbatim>\<open>toFixed\<close>.
\<close>

datatype alert =
    ErrorAlert string
  | BudgetExceeded string string jsnum jsnum
  | BudgetAlert jsnum string string jsnum jsnum
  | OverspendingAlert jsnum jsnum
  | SuccessAlert jsnum

text \<open>
  The state the screen works on: the signed-in user (\<^verbatim>\<open>auth().currentUser\<close>, by uid),
  the three collections, the alerts shown and the console lines so far, the callbacks
  scheduled with \<^verbatim>\<open>setTimeout\<close> (the category and amount they captured), and the React
  state \<^verbatim>\<open>saveExpense\<close> reads.
\<close>

record app_state =
  currentUser :: "string option"
  expenses :: "expense list"
  budgets :: "budget list"
  users :: "(string \<times> user_doc) list"
  alerts :: "alert list"
  console :: "string list"
  timers :: "(string \<times> jsnum) list"
  expenseData :: ExpenseData
  location :: "LocationData option"
  extractedText :: string
  saving :: bool

text \<open>
  What a run of a client function finds outside: the wall clock, the zone offset, the time
  the server stamps on a write, and which remote calls are rejected. \<open>WriteBudget i\<close> is
  the write to budget document \<open>i\<close>; \<open>Commit\<close> is the commit of a batch as a whole.
\<close>

datatype remote_call = AddExpense | GetBudgets | Commit | WriteBudget nat | GetUser | GetExpenses

record env =
  env_now :: int
  env_tza :: zone
  env_serverTime :: int
  env_failing :: "remote_call \<Rightarrow> bool"

section \<open>The client: budget accounting\<close>

text \<open>
  The query \<^verbatim>\<open>where('userId', '==', uid).where('category', '==', category)
  .where('isActive', '==', true).get()\<close> on \<^verbatim>\<open>budgets\<close>: the matching documents, each with
  its reference.
\<close>

definition budgetsSnapshot :: "string \<Rightarrow> string \<Rightarrow> budget list \<Rightarrow> (nat \<times> budget) list" where
  "budgetsSnapshot uid cat bs =
     filter (\<lambda>(ref, b). b_userId b = uid \<and> b_category b = cat \<and> isActive b) (enumerate 0 bs)"

text \<open>
  A \<^verbatim>\<open>batch.update(doc.ref, {...})\<close>: the reference, the new \<^verbatim>\<open>currentPeriod\<close> when the
  update sets one, and the new \<^verbatim>\<open>currentSpent\<close>; \<^verbatim>\<open>updatedAt\<close> is always set to the
  server time.
\<close>

datatype batch_write = Update (write_ref: nat) "string option" jsnum

text \<open>
  The body of the \<^verbatim>\<open>forEach\<close> of \<^verbatim>\<open>updateBudgetSpending\<close>. The values written are
  computed from the snapshot. One clock value stands for the \<^verbatim>\<open>new Date()\<close> of every
  iteration. A \<^verbatim>\<open>budgetType\<close> that is missing or is none of the three kinds takes the
  \<^verbatim>\<open>default\<close> branch of \<^verbatim>\<open>getCurrentPeriod\<close>, as any other string does here.
\<close>

definition budget_write :: "zone \<Rightarrow> int \<Rightarrow> jsnum \<Rightarrow> nat \<times> budget \<Rightarrow> batch_write" where
  "budget_write tza now amt doc =
     (let budget = snd doc; cp = getCurrentPeriod tza now (budgetType budget)
      in if currentPeriod budget \<noteq> Some cp
         then Update (fst doc) (Some cp) amt
         else Update (fst doc) None (js_add (or_default (currentSpent budget) (Fin 0)) amt))"

definition update_doc :: "int \<Rightarrow> batch_write \<Rightarrow> budget \<Rightarrow> budget" where
  "update_doc srv w b =
     (case w of Update ref period spent \<Rightarrow>
        b\<lparr>currentPeriod := (case period of None \<Rightarrow> currentPeriod b | Some p \<Rightarrow> Some p),
          currentSpent := Some spent,
          b_updatedAt := srv\<rparr>)"

definition apply_write :: "int \<Rightarrow> batch_write \<Rightarrow> budget list \<Rightarrow> budget list" where
  "apply_write srv w bs =
     (if write_ref w < length bs
      then bs[write_ref w := update_doc srv w (bs ! write_ref w)]
      else bs)"

text \<open>
  \<^verbatim>\<open>batch.commit()\<close>. A Firestore write batch is atomic: when the commit or any write in
  it is rejected, no write is applied and the promise rejects (\<open>None\<close>).
\<close>

definition batch_commit :: "env \<Rightarrow> batch_write list \<Rightarrow> budget list \<Rightarrow> budget list option" where
  "batch_commit e ws bs =
     (if env_failing e Commit \<or> list_ex (\<lambda>w. env_failing e (WriteBudget (write_ref w))) ws
      then None
      else Some (fold (apply_write (env_serverTime e)) ws bs))"

definition updateBudgetSpending :: "env \<Rightarrow> string \<Rightarrow> jsnum \<Rightarrow> app_state \<Rightarrow> app_state" where
  "updateBudgetSpending e cat amt st =
     (case currentUser st of
        None \<Rightarrow> st
      | Some uid \<Rightarrow>
          if env_failing e GetBudgets
          then st\<lparr>console := console st @ [''Error updating budget spending:'']\<rparr>
          else
            (case batch_commit e
                    (map (budget_write (env_tza e) (env_now e) amt)
                       (budgetsSnapshot uid cat (budgets st)))
                    (budgets st) of
               None \<Rightarrow> st\<lparr>console := console st @ [''Error updating budget spending:'']\<rparr>
             | Some bs \<Rightarrow>
                 st\<lparr>budgets := bs,
                    console := console st @ [''Budget spending updated successfully'']\<rparr>))"

text \<open>The body of the \<^verbatim>\<open>forEach\<close> of \<^verbatim>\<open>checkBudgetAlerts\<close>: the alert one budget raises.\<close>

definition budget_alert :: "zone \<Rightarrow> int \<Rightarrow> string \<Rightarrow> budget \<Rightarrow> alert option" where
  "budget_alert tza now cat budget =
     (if currentPeriod budget = Some (getCurrentPeriod tza now (budgetType budget))
      then
        (let spentAmount = or_default (currentSpent budget) (Fin 0);
             budgetAmount = or_default (budgetAmount budget) (Fin 0);
             percentage = js_mul (js_div spentAmount budgetAmount) (Fin 100)
         in if js_ge percentage (Fin 100)
            then Some (BudgetExceeded (budgetType budget) cat spentAmount budgetAmount)
            else if js_ge percentage (Fin 90)
            then Some (BudgetAlert percentage (budgetType budget) cat spentAmount budgetAmount)
            else None)
      else None)"

text \<open>The quotient \<^verbatim>\<open>spentAmount / budgetAmount\<close> of that body, before it is scaled to a percentage.\<close>

definition spent_ratio :: "budget \<Rightarrow> jsnum" where
  "spent_ratio budget =
     js_div (or_default (currentSpent budget) (Fin 0)) (or_default (budgetAmount budget) (Fin 0))"

definition checkBudgetAlerts :: "env \<Rightarrow> string \<Rightarrow> jsnum \<Rightarrow> app_state \<Rightarrow> app_state" where
  "checkBudgetAlerts e cat amt st =
     (case currentUser st of
        None \<Rightarrow> st
      | Some uid \<Rightarrow>
          if env_failing e GetBudgets
          then st\<lparr>console := console st @ [''Error checking budget alerts:'']\<rparr>
          else st\<lparr>alerts := alerts st @
                 List.map_filter (\<lambda>doc. budget_alert (env_tza e) (env_now e) cat (snd doc))
                   (budgetsSnapshot uid cat (budgets st))\<rparr>)"

section \<open>The client: the monthly overspending check\<close>

text \<open>
  The query on \<^verbatim>\<open>expenses\<close> by user and by \<^verbatim>\<open>createdAt\<close> between the two bounds, and
  the sum of \<^verbatim>\<open>doc.data().amount || 0\<close> over its documents.
\<close>

definition expensesSnapshot :: "string \<Rightarrow> int \<Rightarrow> int \<Rightarrow> expense list \<Rightarrow> expense list" where
  "expensesSnapshot uid startOfMonth endOfMonth es =
     filter (\<lambda>x. e_userId x = uid \<and> startOfMonth \<le> e_createdAt x \<and> e_createdAt x \<le> endOfMonth) es"

definition sum_amounts :: "expense list \<Rightarrow> jsnum" where
  "sum_amounts docs = fold (\<lambda>doc total. js_add total (or_default (e_amount doc) (Fin 0))) docs (Fin 0)"

definition totalMonthlySpent :: "env \<Rightarrow> string \<Rightarrow> jsnum \<Rightarrow> expense list \<Rightarrow> jsnum" where
  "totalMonthlySpent e uid amt es =
     (let now = env_now e; tza = env_tza e;
          startOfMonth = newDate tza (getFullYear tza now) (getMonth tza now) 1 0 0 0;
          endOfMonth = newDate tza (getFullYear tza now) (getMonth tza now + 1) 0 23 59 59
      in js_add (sum_amounts (expensesSnapshot uid startOfMonth endOfMonth es)) amt)"

definition checkOverspendingAlert :: "env \<Rightarrow> jsnum \<Rightarrow> app_state \<Rightarrow> app_state" where
  "checkOverspendingAlert e amt st =
     (case currentUser st of
        None \<Rightarrow> st
      | Some uid \<Rightarrow>
          if env_failing e GetUser
          then st\<lparr>console := console st @ [''Error checking overspending alert:'']\<rparr>
          else
            (case map_of (users st) uid of
               None \<Rightarrow> st
             | Some userData \<Rightarrow>
                 (let overspendingLimit = or_default (overspendingAlerts userData) (Fin 1000)
                  in if env_failing e GetExpenses
                     then st\<lparr>console := console st @ [''Error checking overspending alert:'']\<rparr>
                     else
                       (let total = totalMonthlySpent e uid amt (expenses st)
                        in if js_ge total overspendingLimit
                           then st\<lparr>alerts := alerts st @ [OverspendingAlert total overspendingLimit]\<rparr>
                           else st))))"

section \<open>The client: saving an expense\<close>

definition expenseDoc :: "env \<Rightarrow> string \<Rightarrow> app_state \<Rightarrow> expense" where
  "expenseDoc e uid st =
     \<lparr>e_userId = uid,
      e_amount = Some (amount (expenseData st)),
      e_merchantName = trim (merchantName (expenseData st)),
      e_referenceId = trim (referenceId (expenseData st)),
      e_transactionDate = transactionDate (expenseData st),
      e_description = trim (description (expenseData st)),
      e_category = category (expenseData st),
      e_location =
        (case location st of
           None \<Rightarrow> None
         | Some l \<Rightarrow> Some \<lparr>l_latitude = latitude l, l_longitude = longitude l,
                           l_address = address l, l_city = city l\<rparr>),
      e_extractedText = extractedText st,
      e_createdAt = env_serverTime e,
      e_updatedAt = env_serverTime e\<rparr>"

text \<open>
  \<^verbatim>\<open>saveExpense\<close>. The three guards return before \<^verbatim>\<open>setSaving(true)\<close>; after them
  the \<^verbatim>\<open>finally\<close> block leaves \<^verbatim>\<open>saving\<close> false. A rejected \<^verbatim>\<open>add\<close> goes to the
  \<^verbatim>\<open>catch\<close> block, whose alert also carries the message of the error, left out here;
  \<^verbatim>\<open>updateBudgetSpending\<close> catches its own errors.
\<close>

definition saveExpense :: "env \<Rightarrow> app_state \<Rightarrow> app_state" where
  "saveExpense e st =
     (case currentUser st of
        None \<Rightarrow> st\<lparr>alerts := alerts st @ [ErrorAlert ''You must be logged in to save expenses'']\<rparr>
      | Some uid \<Rightarrow>
          if \<not> truthy (amount (expenseData st)) \<or> js_le (amount (expenseData st)) (Fin 0)
          then st\<lparr>alerts := alerts st @ [ErrorAlert ''Please enter a valid amount'']\<rparr>
          else if trim (merchantName (expenseData st)) = []
          then st\<lparr>alerts := alerts st @ [ErrorAlert ''Please enter the merchant name'']\<rparr>
          else if env_failing e AddExpense
          then st\<lparr>alerts := alerts st @ [ErrorAlert ''Failed to save expense''], saving := False\<rparr>
          else
            (let st1 = st\<lparr>expenses := expenses st @ [expenseDoc e uid st]\<rparr>;
                 st2 = updateBudgetSpending e (category (expenseData st)) (amount (expenseData st)) st1
             in st2\<lparr>timers := timers st2 @ [(category (expenseData st), amount (expenseData st))],
                    alerts := alerts st2 @ [SuccessAlert (amount (expenseData st))],
                    saving := False\<rparr>))"

text \<open>
  The callback \<^verbatim>\<open>saveExpense\<close> schedules with \<^verbatim>\<open>setTimeout(..., 1000)\<close>, run in a later
  environment: the two checks, with the category and amount captured at the save. The
  checks are started together and only read the store; they are run one after the other here.
\<close>

definition runTimer :: "env \<Rightarrow> app_state \<Rightarrow> app_state" where
  "runTimer e st =
     (case timers st of
        [] \<Rightarrow> st
      | (cat, amt) # rest \<Rightarrow>
          checkOverspendingAlert e amt (checkBudgetAlerts e cat amt (st\<lparr>timers := rest\<rparr>)))"

text \<open>
  The amount field of the confirmation form:
  \<^verbatim>\<open>onChangeText={(text) => setExpenseData({ ...expenseData, amount: parseFloat(text) || 0 })}\<close>.
  The argument is what \<^verbatim>\<open>parseFloat(text)\<close> returned, \<open>NaN\<close> for text that does not
  start with a number.
\<close>

definition onChangeAmount :: "jsnum \<Rightarrow> app_state \<Rightarrow> app_state" where
  "onChangeAmount parsed st =
     st\<lparr>expenseData := (expenseData st)\<lparr>amount := or_default (Some parsed) (Fin 0)\<rparr>\<rparr>"

section \<open>Signals\<close>

text \<open>The signal an alert carries, in the words of the specification.\<close>

datatype signal = Exceeded | Warning | NoSignal

fun signal_of :: "alert option \<Rightarrow> signal" where
  "signal_of (Some (BudgetExceeded _ _ _ _)) = Exceeded"
| "signal_of (Some (OverspendingAlert _ _)) = Exceeded"
| "signal_of (Some (BudgetAlert _ _ _ _ _)) = Warning"
| "signal_of _ = NoSignal"

section \<open>The relay\<close>

text \<open>
  \<^verbatim>\<open>POST /extract-text\<close> of the relay. What the OCR library, the LLM service and
  \<^verbatim>\<open>JSON.parse\<close> do is given from outside: the outcome of the race between
  \<^verbatim>\<open>scribe.extractText\<close> and the 30 second timer, the outcome of the completion call
  (an error, or the \<^verbatim>\<open>content\<close> of the first choice, which may be missing), and the parser.
  File system calls are taken to succeed.
\<close>

datatype json =
    JNull
  | JBool bool
  | JNumber rat
  | JString string
  | JArray "json list"
  | JObject "(string \<times> json) list"

datatype ocr_outcome = Extracted string | ExtractionTimeout | ExtractionError string

datatype llm_outcome = CompletionError | Completion "string option"

record relay_env =
  ocr :: ocr_outcome
  llm :: llm_outcome
  json_parse :: "string \<Rightarrow> json option"

record upload =
  originalname :: string
  mimetype :: string
  filesize :: nat

datatype body =
    ErrorBody string "string option"
  | ExtractBody bool string string json string

text \<open>
  A response, with two marks of what the request set off: whether text extraction was
  started and whether the analysis was.
\<close>

record response =
  status :: nat
  body :: body
  extraction_started :: bool
  analysis_started :: bool

definition null_analysis :: json where
  "null_analysis =
     JObject [(''referenceId'', JNull), (''date'', JNull), (''time'', JNull),
              (''beneficiaryName'', JNull), (''amount'', JNull)]"

definition analyzeFinancialDocument :: "relay_env \<Rightarrow> string \<Rightarrow> json" where
  "analyzeFinancialDocument r text =
     (case llm r of
        CompletionError \<Rightarrow> null_analysis
      | Completion None \<Rightarrow> null_analysis
      | Completion (Some content) \<Rightarrow>
          (case json_parse r content of
             None \<Rightarrow> null_analysis
           | Some parsed \<Rightarrow> parsed))"

text \<open>
  The route with its \<^verbatim>\<open>multer\<close> middleware and the error handling middleware. The file
  filter runs when the file part starts, before the size limit can be hit and before the
  handler. The limit of \<^verbatim>\<open>fileSize: 10 * 1024 * 1024\<close> is hit when the file reaches that
  many bytes, so a file of exactly the limit is refused as well.
\<close>

definition extract_text :: "relay_env \<Rightarrow> upload option \<Rightarrow> response" where
  "extract_text r file =
     (case file of
        None \<Rightarrow>
          \<lparr>status = 400, body = ErrorBody ''No PDF file uploaded'' None,
           extraction_started = False, analysis_started = False\<rparr>
      | Some f \<Rightarrow>
          if mimetype f \<noteq> ''application/pdf''
          then \<lparr>status = 500, body = ErrorBody ''Only PDF files are allowed!'' None,
                extraction_started = False, analysis_started = False\<rparr>
          else if 10 * 1024 * 1024 \<le> filesize f
          then \<lparr>status = 400, body = ErrorBody ''File too large. Maximum size is 10MB.'' None,
                extraction_started = False, analysis_started = False\<rparr>
          else
            (case ocr r of
               Extracted text \<Rightarrow>
                 \<lparr>status = 200,
                  body = ExtractBody True (originalname f) text (analyzeFinancialDocument r text)
                           ''Text extracted and analyzed successfully'',
                  extraction_started = True, analysis_started = True\<rparr>
             | ExtractionTimeout \<Rightarrow>
                 \<lparr>status = 500,
                  body = ErrorBody ''Failed to extract text from PDF'' (Some ''Text extraction timeout''),
                  extraction_started = True, analysis_started = False\<rparr>
             | ExtractionError msg \<Rightarrow>
                 \<lparr>status = 500,
                  body = ErrorBody ''Failed to extract text from PDF'' (Some msg),
                  extraction_started = True, analysis_started = False\<rparr>))"

text \<open>The LLM call failed, returned no content, or returned content that does not parse.\<close>

definition llm_unusable :: "relay_env \<Rightarrow> bool" where
  "llm_unusable r =
     (case llm r of
        CompletionError \<Rightarrow> True
      | Completion None \<Rightarrow> True
      | Completion (Some content) \<Rightarrow> json_parse r content = None)"

text \<open>
  The outcome the specification gives for a failed or timed-out remote service: a success
  response whose analysis has all five fields null.
\<close>

definition spec_null_success :: "response \<Rightarrow> bool" where
  "spec_null_success res =
     (status res = 200 \<and>
      (case body res of
         ExtractBody success _ _ analysis _ \<Rightarrow> success \<and> analysis = null_analysis
       | ErrorBody _ _ \<Rightarrow> False))"

section \<open>Example states\<close>


text \<open>
  A device in the UTC zone at midnight of 1 June 2024, and the same device one second
  later, when the scheduled checks run; no remote call fails.
\<close>

definition demo_env :: env where
  "demo_env =
     \<lparr>env_now = 1717200000000, env_tza = fixed_zone 0, env_serverTime = 1717200000500,
      env_failing = (\<lambda>c. False)\<rparr>"

definition later_env :: env where
  "later_env = demo_env\<lparr>env_now := 1717200001000\<rparr>"

text \<open>The same device when the server rejects the write to budget document 0.\<close>

definition rejecting_env :: env where
  "rejecting_env = demo_env\<lparr>env_failing := (\<lambda>c. c = WriteBudget 0)\<rparr>"

text \<open>
  Two monthly budgets of 100 on one category: the first was last updated in the current
  month with 85 spent, the second in May with 70 spent.
\<close>

definition current_budget :: budget where
  "current_budget =
     \<lparr>b_userId = ''u1'', b_category = ''food-dining'', budgetType = ''monthly'',
      budgetAmount = Some (Fin 100), currentPeriod = Some ''2024-06'',
      currentSpent = Some (Fin 85), isActive = True, b_updatedAt = 0\<rparr>"

definition stale_budget :: budget where
  "stale_budget = current_budget\<lparr>currentPeriod := Some ''2024-05'', currentSpent := Some (Fin 70)\<rparr>"

definition demo_form :: ExpenseData where
  "demo_form =
     \<lparr>amount = Fin 10, merchantName = ''Cafe'', referenceId = ''R-1'',
      transactionDate = ''2024-06-01'', description = [], category = ''food-dining''\<rparr>"

definition demo_state :: app_state where
  "demo_state =
     \<lparr>currentUser = Some ''u1'', expenses = [], budgets = [current_budget, stale_budget],
      users = [(''u1'', \<lparr>overspendingAlerts = Some (Fin 1000)\<rparr>)],
      alerts = [], console = [], timers = [],
      expenseData = demo_form, location = None, extractedText = [], saving = False\<rparr>"

text \<open>
  A user without budgets who has one expense of 930 from earlier in June 2024 and a monthly
  limit of 1000, about to save an expense of 10.
\<close>

definition earlier_expense :: expense where
  "earlier_expense =
     \<lparr>e_userId = ''u1'', e_amount = Some (Fin 930), e_merchantName = ''Market'',
      e_referenceId = ''R-0'', e_transactionDate = ''2024-06-01'', e_description = [],
      e_category = ''groceries'', e_location = None, e_extractedText = [],
      e_createdAt = 1717200000100, e_updatedAt = 1717200000100\<rparr>"

definition near_limit_state :: app_state where
  "near_limit_state = demo_state\<lparr>budgets := [], expenses := [earlier_expense]\<rparr>"

text \<open>
  The example after an expense of 10 was recorded: 95 of 100 spent on the first budget, and
  the second budget started anew with 10. And the example after an expense of 20 instead.
\<close>

definition updated_state :: app_state where
  "updated_state =
     demo_state\<lparr>budgets :=
       [current_budget\<lparr>currentSpent := Some (Fin 95), b_updatedAt := 1717200000500\<rparr>,
        stale_budget\<lparr>currentPeriod := Some ''2024-06'', currentSpent := Some (Fin 10),
          b_updatedAt := 1717200000500\<rparr>],
       console := [''Budget spending updated successfully'']\<rparr>"

definition exceeded_state :: app_state where
  "exceeded_state =
     demo_state\<lparr>budgets :=
       [current_budget\<lparr>currentSpent := Some (Fin 105), b_updatedAt := 1717200000500\<rparr>,
        stale_budget\<lparr>currentPeriod := Some ''2024-06'', currentSpent := Some (Fin 20),
          b_updatedAt := 1717200000500\<rparr>],
       console := [''Budget spending updated successfully'']\<rparr>"

text \<open>A PDF upload, a relay whose text extraction times out, and one whose LLM call fails.\<close>

definition pdf_upload :: upload where
  "pdf_upload = \<lparr>originalname = ''receipt.pdf'', mimetype = ''application/pdf'', filesize = 2048\<rparr>"

definition timeout_relay :: relay_env where
  "timeout_relay = \<lparr>ocr = ExtractionTimeout, llm = Completion None, json_parse = (\<lambda>s. None)\<rparr>"

definition failing_llm_relay :: relay_env where
  "failing_llm_relay = timeout_relay\<lparr>ocr := Extracted ''PAID 10.00'', llm := CompletionError\<rparr>"

section \<open>Properties of the arithmetic\<close>

text \<open>
  Rounding to binary64 is monotone, and no rounded value lies strictly between two
  neighbouring doubles. For a quotient \<open>q\<close> that came out of a division, the percentage
  \<^verbatim>\<open>q * 100\<close> therefore reaches 100 exactly when \<open>q\<close> reaches 1, and 90 exactly when \<open>q\<close>
  reaches 0.9.
\<close>

lemma two_1024_eq: "two_1024 = 2 ^ 1024"
  by (simp add: two_1024_def)

subsection \<open>Rounding to an integer\<close>

lemma rne_cases: "rne y = \<lfloor>y\<rfloor> \<or> rne y = \<lfloor>y\<rfloor> + 1"
  by (simp add: rne_def Let_def)

lemma rne_of_int [simp]: "rne (of_int k) = k"
  by (simp add: rne_def)

lemma rne_mono:
  assumes "y \<le> z"
  shows "rne y \<le> rne z"
proof (cases "\<lfloor>y\<rfloor> = \<lfloor>z\<rfloor>")
  case True
  with assms show ?thesis by (auto simp add: rne_def Let_def)
next
  case False
  with assms have "\<lfloor>y\<rfloor> + 1 \<le> \<lfloor>z\<rfloor>"
    using floor_mono [of y z] by linarith
  with rne_cases [of y] rne_cases [of z] show ?thesis by linarith
qed

lemma rne_between:
  assumes "of_int k < y" and "y < of_int k + 1"
  shows "rne y = k \<or> rne y = k + 1"
proof -
  from assms have "\<lfloor>y\<rfloor> = k" by linarith
  with rne_cases [of y] show ?thesis by simp
qed

subsection \<open>The binary exponent\<close>

lemma powi_pos [simp]: "0 < (2::rat) powi k"
  by (simp add: power_int_def)

lemma powi_less_iff: "(2::rat) powi a < 2 powi b \<longleftrightarrow> a < b"
  by (metis power_int_strict_increasing power_int_increasing not_less one_less_numeral_iff
      semiring_norm(76) order_less_imp_le one_le_numeral)

lemma powi_le_iff: "(2::rat) powi a \<le> 2 powi b \<longleftrightarrow> a \<le> b"
  using powi_less_iff [of b a] by (simp add: not_less [symmetric])

lemma powi_add: "(2::rat) powi (a + b) = 2 powi a * 2 powi b"
  by (simp add: power_int_add)

lemma powi_diff: "(2::rat) powi (a - b) = 2 powi a / 2 powi b"
  by (simp add: power_int_diff)

lemma expo_bounds:
  assumes "0 < x"
  shows "2 powi (expo x) \<le> x \<and> x < 2 powi (expo x + 1)"
proof -
  obtain a b where q: "quotient_of x = (a, b)" by (cases "quotient_of x")
  then have x: "x = of_int a / of_int b" by (rule quotient_of_div)
  from q have b: "0 < b" by (rule quotient_of_denom_pos)
  with assms x have a: "0 < a" by (simp add: zero_less_divide_iff)
  let ?la = "bitlen a" and ?lb = "bitlen b"
  from a have la: "1 \<le> ?la" using bitlen_eq_zero_iff [of a] bitlen_nonneg [of a] by linarith
  from b have lb: "1 \<le> ?lb" using bitlen_eq_zero_iff [of b] bitlen_nonneg [of b] by linarith
  from bitlen_bounds [OF a] have "(2::int) ^ nat (?la - 1) \<le> a" "a < 2 ^ nat ?la" by simp_all
  then have "(of_int ((2::int) ^ nat (?la - 1)) :: rat) \<le> of_int a"
    "(of_int a :: rat) < of_int (2 ^ nat ?la)"
    by (simp_all only: of_int_le_iff of_int_less_iff)
  then have a1: "(2::rat) powi (?la - 1) \<le> of_int a" and a2: "(of_int a :: rat) < 2 powi ?la"
    using la by (simp_all add: power_int_def)
  from bitlen_bounds [OF b] have "(2::int) ^ nat (?lb - 1) \<le> b" "b < 2 ^ nat ?lb" by simp_all
  then have "(of_int ((2::int) ^ nat (?lb - 1)) :: rat) \<le> of_int b"
    "(of_int b :: rat) < of_int (2 ^ nat ?lb)"
    by (simp_all only: of_int_le_iff of_int_less_iff)
  then have b1: "(2::rat) powi (?lb - 1) \<le> of_int b" and b2: "(of_int b :: rat) < 2 powi ?lb"
    using lb by (simp_all add: power_int_def)
  let ?k = "?la - ?lb"
  have bp: "(0::rat) < of_int b" using b by simp
  have up: "x < 2 powi (?k + 1)"
  proof -
    have "x * (2::rat) powi (?lb - 1) \<le> x * of_int b"
      using b1 assms by (simp add: mult_left_mono)
    also have "\<dots> = of_int a" using x bp by simp
    also have "\<dots> < 2 powi ?la" by (rule a2)
    finally have "x * 2 powi (?lb - 1) < 2 powi ?la" .
    then have "x < 2 powi ?la / 2 powi (?lb - 1)"
      by (simp add: pos_less_divide_eq)
    also have "\<dots> = 2 powi (?k + 1)"
      by (simp add: powi_diff [symmetric] algebra_simps)
    finally show ?thesis .
  qed
  have lo: "2 powi (?k - 1) \<le> x"
  proof -
    have "(2::rat) powi (?la - 1) \<le> of_int a" by (rule a1)
    also have "\<dots> = x * of_int b" using x bp by simp
    also have "\<dots> \<le> x * 2 powi ?lb"
      using b2 assms by (simp add: mult_left_mono less_imp_le)
    finally have "(2::rat) powi (?la - 1) / 2 powi ?lb \<le> x"
      by (simp add: pos_divide_le_eq)
    moreover have "(2::rat) powi (?la - 1) / 2 powi ?lb = 2 powi (?k - 1)"
      by (simp add: powi_diff [symmetric] algebra_simps)
    ultimately show ?thesis by simp
  qed
  have e: "expo x = (if 2 powi ?k \<le> x then ?k else ?k - 1)"
    by (simp add: expo_def q Let_def)
  show ?thesis
  proof (cases "2 powi ?k \<le> x")
    case True
    with e up show ?thesis by simp
  next
    case False
    with e lo show ?thesis by simp
  qed
qed

lemma expo_unique:
  assumes "0 < x" and "2 powi e \<le> x" and "x < 2 powi (e + 1)"
  shows "expo x = e"
proof -
  from expo_bounds [OF assms(1)] assms(2,3)
  have "(2::rat) powi (expo x) < 2 powi (e + 1)" and "(2::rat) powi e < 2 powi (expo x + 1)"
    by linarith+
  then have "expo x < e + 1" and "e < expo x + 1" by (simp_all only: powi_less_iff)
  then show ?thesis by linarith
qed

lemma expo_mono:
  assumes "0 < x" and "x \<le> y"
  shows "expo x \<le> expo y"
proof -
  from assms have y: "0 < y" by linarith
  from expo_bounds [OF assms(1)] expo_bounds [OF y] assms(2)
  have "(2::rat) powi (expo x) < 2 powi (expo y + 1)" by linarith
  then have "expo x < expo y + 1" by (simp only: powi_less_iff)
  then show ?thesis by linarith
qed


subsection \<open>Rounding to binary64\<close>

lemma round_pos_eq:
  "round_pos x = of_int (rne (x / 2 powi (max (expo x - 52) (- 1074)))) * 2 powi (max (expo x - 52) (- 1074))"
  by (simp add: round_pos_def Let_def)

lemma round_pos_nonneg:
  assumes "0 < x"
  shows "0 \<le> round_pos x"
proof -
  let ?u = "max (expo x - 52) (- 1074)"
  have "0 \<le> x / 2 powi ?u" using assms by simp
  then have "rne (of_int 0) \<le> rne (x / 2 powi ?u)" by (intro rne_mono) simp
  then have "0 \<le> rne (x / 2 powi ?u)" by (simp only: rne_of_int)
  then show ?thesis by (simp add: round_pos_eq)
qed

lemma round_pos_mono:
  assumes "0 < x" and "x \<le> y"
  shows "round_pos x \<le> round_pos y"
proof -
  from assms have y: "0 < y" by linarith
  let ?ux = "max (expo x - 52) (- 1074)" and ?uy = "max (expo y - 52) (- 1074)"
  from expo_mono [OF assms] have u: "?ux \<le> ?uy" by linarith
  show ?thesis
  proof (cases "?ux = ?uy")
    case True
    have "x / 2 powi ?ux \<le> y / 2 powi ?ux"
      using assms(2) by (simp add: divide_right_mono)
    then have "rne (x / 2 powi ?ux) \<le> rne (y / 2 powi ?ux)" by (rule rne_mono)
    then have "of_int (rne (x / 2 powi ?ux)) * 2 powi ?ux
        \<le> (of_int (rne (y / 2 powi ?ux)) :: rat) * 2 powi ?ux"
      by (simp add: mult_right_mono)
    with True show ?thesis by (simp only: round_pos_eq)
  next
    case False
    with u have lt: "?ux < ?uy" by linarith
    then have uy: "?uy = expo y - 52" by linarith
    have "x < 2 powi (expo x + 1)" using expo_bounds [OF assms(1)] by simp
    also have "\<dots> \<le> 2 powi (?ux + 53)" by (simp add: powi_le_iff)
    finally have "x / 2 powi ?ux \<le> 2 powi (?ux + 53) / 2 powi ?ux"
      by (simp add: divide_right_mono less_imp_le)
    also have "\<dots> = of_int (2 ^ 53)" by (simp add: powi_add)
    finally have "rne (x / 2 powi ?ux) \<le> rne (of_int (2 ^ 53))" by (rule rne_mono)
    then have "rne (x / 2 powi ?ux) \<le> 2 ^ 53" by (simp only: rne_of_int)
    then have "(of_int (rne (x / 2 powi ?ux)) :: rat) \<le> of_int (2 ^ 53)"
      by (simp only: of_int_le_iff)
    then have "of_int (rne (x / 2 powi ?ux)) * 2 powi ?ux \<le> (of_int (2 ^ 53) :: rat) * 2 powi ?ux"
      by (simp add: mult_right_mono)
    also have "\<dots> = 2 powi (?ux + 53)" by (simp add: powi_add)
    also have "\<dots> \<le> 2 powi (?uy + 52)"
    proof -
      from lt have "?ux + 53 \<le> ?uy + 52" by linarith
      then show ?thesis by (simp only: powi_le_iff)
    qed
    finally have a: "round_pos x \<le> 2 powi (?uy + 52)" by (simp only: round_pos_eq)
    have "2 powi (?uy + 52) = (2::rat) powi (expo y)" using uy by simp
    also have "\<dots> \<le> y" using expo_bounds [OF y] by simp
    finally have "2 powi (?uy + 52) / 2 powi ?uy \<le> y / 2 powi ?uy"
      by (simp add: divide_right_mono)
    moreover have "2 powi (?uy + 52) / 2 powi ?uy = (of_int (2 ^ 52) :: rat)"
      by (simp add: powi_add)
    ultimately have "rne (of_int (2 ^ 52)) \<le> rne (y / 2 powi ?uy)" by (intro rne_mono) simp
    then have "2 ^ 52 \<le> rne (y / 2 powi ?uy)" by (simp only: rne_of_int)
    then have "(of_int (2 ^ 52) :: rat) \<le> of_int (rne (y / 2 powi ?uy))"
      by (simp only: of_int_le_iff)
    then have "(of_int (2 ^ 52) :: rat) * 2 powi ?uy \<le> of_int (rne (y / 2 powi ?uy)) * 2 powi ?uy"
      by (simp add: mult_right_mono)
    moreover have "(of_int (2 ^ 52) :: rat) * 2 powi ?uy = 2 powi (?uy + 52)"
      by (simp add: powi_add)
    ultimately have b: "2 powi (?uy + 52) \<le> round_pos y" by (simp only: round_pos_eq)
    from a b show ?thesis by linarith
  qed
qed

lemma round_rat_mono:
  assumes "x \<le> y"
  shows "round_rat x \<le> round_rat y"
proof -
  consider "0 < x" | "x \<le> 0" "0 \<le> y" | "y < 0" by linarith
  then show ?thesis
  proof cases
    case 1
    with assms round_pos_mono [of x y] show ?thesis by (simp add: round_rat_def)
  next
    case 2
    have "round_rat x \<le> 0"
      using 2(1) round_pos_nonneg [of "- x"] by (simp add: round_rat_def)
    moreover have "0 \<le> round_rat y"
      using 2(2) round_pos_nonneg [of y] by (simp add: round_rat_def)
    ultimately show ?thesis by linarith
  next
    case 3
    with assms have "0 < - y" "- y \<le> - x" by simp_all
    then have "round_pos (- y) \<le> round_pos (- x)" by (rule round_pos_mono)
    with 3 assms show ?thesis by (simp add: round_rat_def)
  qed
qed

lemma overflow_mono: "r \<le> s \<Longrightarrow> js_le (overflow r) (overflow s)"
  by (auto simp add: overflow_def two_1024_def)

lemma round64_mono: "x \<le> y \<Longrightarrow> js_le (round64 x) (round64 y)"
  by (simp add: round64_def overflow_mono round_rat_mono)

lemma grid_gap:
  assumes k: "2 ^ 52 \<le> k" "k < 2 ^ 53" and u: "- 1074 \<le> u"
    and lo: "round_rat (of_int k * 2 powi u) = of_int k * 2 powi u"
    and hi: "round_rat (of_int (k + 1) * 2 powi u) = of_int (k + 1) * 2 powi u"
  shows "round_rat r \<le> of_int k * 2 powi u \<or> of_int (k + 1) * 2 powi u \<le> round_rat r"
proof -
  let ?lo = "(of_int k :: rat) * 2 powi u" and ?hi = "(of_int (k + 1) :: rat) * 2 powi u"
  consider "r \<le> ?lo" | "?hi \<le> r" | "?lo < r" "r < ?hi" by linarith
  then show ?thesis
  proof cases
    case 1
    then have "round_rat r \<le> round_rat ?lo" by (rule round_rat_mono)
    with lo show ?thesis by simp
  next
    case 2
    then have "round_rat ?hi \<le> round_rat r" by (rule round_rat_mono)
    with hi show ?thesis by simp
  next
    case 3
    from k have kr: "(of_int (2 ^ 52) :: rat) \<le> of_int k" "(of_int (k + 1) :: rat) \<le> of_int (2 ^ 53)"
      by simp_all
    have "(2::rat) powi (u + 52) = of_int (2 ^ 52) * 2 powi u" by (simp add: powi_add)
    also have "\<dots> \<le> ?lo" using kr(1) by (simp add: mult_right_mono)
    finally have b1: "2 powi (u + 52) \<le> r" using 3(1) by linarith
    then have rpos: "0 < r" using powi_pos [of "u + 52"] by linarith
    have "?hi \<le> of_int (2 ^ 53) * 2 powi u" using kr(2) by (simp add: mult_right_mono)
    also have "\<dots> = 2 powi (u + 52 + 1)" by (simp add: powi_add)
    finally have b2: "r < 2 powi (u + 52 + 1)" using 3(2) by linarith
    from rpos b1 b2 have "expo r = u + 52" by (rule expo_unique)
    with u have ue: "max (expo r - 52) (- 1074) = u" by simp
    have "of_int k < r / 2 powi u" using 3(1) by (simp add: pos_less_divide_eq)
    moreover have "r / 2 powi u < of_int k + 1" using 3(2) by (simp add: pos_divide_less_eq)
    ultimately have "rne (r / 2 powi u) = k \<or> rne (r / 2 powi u) = k + 1" by (rule rne_between)
    moreover have "round_rat r = of_int (rne (r / 2 powi u)) * 2 powi u"
      using rpos by (simp add: round_rat_def round_pos_eq ue)
    ultimately show ?thesis by auto
  qed
qed


subsection \<open>Percentages of quotients\<close>

lemma gap_below_one: "round_rat r \<le> 9007199254740991 / 9007199254740992 \<or> 1 \<le> round_rat r"
proof -
  have lo: "round_rat (of_int 9007199254740991 * 2 powi (- 53)) = of_int 9007199254740991 * 2 powi (- 53)"
    by code_simp
  have hi: "round_rat (of_int (9007199254740991 + 1) * 2 powi (- 53))
      = of_int (9007199254740991 + 1) * 2 powi (- 53)"
    by code_simp
  have "round_rat r \<le> of_int 9007199254740991 * 2 powi (- 53) \<or>
      of_int (9007199254740991 + 1) * 2 powi (- 53) \<le> round_rat r"
    using _ _ _ lo hi by (rule grid_gap) simp_all
  then show ?thesis by (simp add: power_int_minus_divide)
qed

lemma gap_around_nine_tenths:
  "round_rat r \<le> 8106479329266892 / 9007199254740992 \<or>
   8106479329266893 / 9007199254740992 \<le> round_rat r"
proof -
  have lo: "round_rat (of_int 8106479329266892 * 2 powi (- 53)) = of_int 8106479329266892 * 2 powi (- 53)"
    by code_simp
  have hi: "round_rat (of_int (8106479329266892 + 1) * 2 powi (- 53))
      = of_int (8106479329266892 + 1) * 2 powi (- 53)"
    by code_simp
  have "round_rat r \<le> of_int 8106479329266892 * 2 powi (- 53) \<or>
      of_int (8106479329266892 + 1) * 2 powi (- 53) \<le> round_rat r"
    using _ _ _ lo hi by (rule grid_gap) simp_all
  then show ?thesis by (simp add: power_int_minus_divide)
qed

lemma percent_of_ratio_100: "100 \<le> round_rat (round_rat r * 100) \<longleftrightarrow> 1 \<le> round_rat r"
proof
  assume "1 \<le> round_rat r"
  then have "100 \<le> round_rat r * 100" by simp
  then have "round_rat 100 \<le> round_rat (round_rat r * 100)" by (rule round_rat_mono)
  moreover have "round_rat 100 = 100" by code_simp
  ultimately show "100 \<le> round_rat (round_rat r * 100)" by simp
next
  assume h: "100 \<le> round_rat (round_rat r * 100)"
  show "1 \<le> round_rat r"
  proof (rule ccontr)
    assume "\<not> 1 \<le> round_rat r"
    with gap_below_one [of r] have "round_rat r \<le> 9007199254740991 / 9007199254740992" by simp
    then have "round_rat r * 100 \<le> 9007199254740991 / 9007199254740992 * 100" by simp
    then have "round_rat (round_rat r * 100) \<le> round_rat (9007199254740991 / 9007199254740992 * 100)"
      by (rule round_rat_mono)
    moreover have "round_rat (9007199254740991 / 9007199254740992 * 100)
        = 7036874417766399 / 70368744177664"
      by code_simp
    ultimately show False using h by simp
  qed
qed

lemma percent_of_ratio_90: "90 \<le> round_rat (round_rat r * 100) \<longleftrightarrow> 9 / 10 \<le> round_rat r"
proof
  assume "9 / 10 \<le> round_rat r"
  with gap_around_nine_tenths [of r] have "8106479329266893 / 9007199254740992 \<le> round_rat r"
    by linarith
  then have "8106479329266893 / 9007199254740992 * 100 \<le> round_rat r * 100" by simp
  then have "round_rat (8106479329266893 / 9007199254740992 * 100) \<le> round_rat (round_rat r * 100)"
    by (rule round_rat_mono)
  moreover have "round_rat (8106479329266893 / 9007199254740992 * 100) = 90" by code_simp
  ultimately show "90 \<le> round_rat (round_rat r * 100)" by simp
next
  assume h: "90 \<le> round_rat (round_rat r * 100)"
  show "9 / 10 \<le> round_rat r"
  proof (rule ccontr)
    assume "\<not> 9 / 10 \<le> round_rat r"
    with gap_around_nine_tenths [of r] have "round_rat r \<le> 8106479329266892 / 9007199254740992"
      by linarith
    then have "round_rat r * 100 \<le> 8106479329266892 / 9007199254740992 * 100" by simp
    then have "round_rat (round_rat r * 100) \<le> round_rat (8106479329266892 / 9007199254740992 * 100)"
      by (rule round_rat_mono)
    moreover have "round_rat (8106479329266892 / 9007199254740992 * 100)
        = 6333186975989759 / 70368744177664"
      by code_simp
    ultimately show False using h by simp
  qed
qed


lemma overflow_ge:
  assumes "- two_1024 < c" and "c \<le> two_1024"
  shows "js_ge (overflow r) (Fin c) \<longleftrightarrow> c \<le> r"
  using assms by (auto simp add: overflow_def js_ge_def)

lemma js_div_rounded:
  assumes "js_div x y = Fin q"
  shows "\<exists>r. q = round_rat r"
proof (cases x)
  case (Fin a)
  show ?thesis
  proof (cases y)
    case (Fin b)
    with \<open>x = Fin a\<close> assms have "b \<noteq> 0" and "round64 (a / b) = Fin q"
      by (auto split: if_splits)
    then have "q = round_rat (a / b)"
      by (auto simp add: round64_def overflow_def split: if_splits)
    then show ?thesis ..
  next
    case PosInf
    with \<open>x = Fin a\<close> assms have "q = round_rat 0" by (simp add: round_rat_def)
    then show ?thesis ..
  next
    case NegInf
    with \<open>x = Fin a\<close> assms have "q = round_rat 0" by (simp add: round_rat_def)
    then show ?thesis ..
  next
    case NaN
    with \<open>x = Fin a\<close> assms show ?thesis by simp
  qed
next
  case PosInf
  with assms show ?thesis by (cases y) (auto split: if_splits)
next
  case NegInf
  with assms show ?thesis by (cases y) (auto split: if_splits)
next
  case NaN
  with assms show ?thesis by simp
qed

lemma percentage_ge_100:
  "js_ge (js_mul (js_div x y) (Fin 100)) (Fin 100) \<longleftrightarrow> js_ge (js_div x y) (Fin 1)"
proof (cases "js_div x y")
  case (Fin q)
  then obtain r where q: "q = round_rat r" using js_div_rounded by blast
  have "js_ge (round64 (q * 100)) (Fin 100) \<longleftrightarrow> 100 \<le> round_rat (q * 100)"
    unfolding round64_def by (rule overflow_ge) (simp_all add: two_1024_def)
  with Fin show ?thesis by (simp add: q percent_of_ratio_100 js_ge_def)
qed (simp_all add: js_ge_def)

lemma percentage_ge_90:
  "js_ge (js_mul (js_div x y) (Fin 100)) (Fin 90) \<longleftrightarrow> js_ge (js_div x y) (Fin (9 / 10))"
proof (cases "js_div x y")
  case (Fin q)
  then obtain r where q: "q = round_rat r" using js_div_rounded by blast
  have "js_ge (round64 (q * 100)) (Fin 90) \<longleftrightarrow> 90 \<le> round_rat (q * 100)"
    unfolding round64_def by (rule overflow_ge) (simp_all add: two_1024_def)
  with Fin show ?thesis by (simp add: q percent_of_ratio_90 js_ge_def)
qed (simp_all add: js_ge_def)

lemma js_ge_one_nine_tenths: "js_ge r (Fin 1) \<Longrightarrow> js_ge r (Fin (9 / 10))"
  by (cases r) (auto simp add: js_ge_def)

section \<open>Properties of the period keys\<close>

subsection \<open>The calendar\<close>

text \<open>
  The year computed by \<open>YearFromDay\<close> is the one ECMAScript defines: the largest year
  whose first day is not after the given day. Consecutive years are \<open>DaysInYear\<close> days
  apart.
\<close>

lemma div_bounds:
  fixes x :: int
  assumes "0 < k"
  shows "k * (x div k) \<le> x \<and> x < k * (x div k) + k"
proof -
  have "x = k * (x div k) + x mod k" by simp
  moreover have "0 \<le> x mod k \<and> x mod k < k" using assms by simp
  ultimately show ?thesis by linarith
qed

lemma leap_terms_bounds:
  fixes a b c y :: int
  assumes "4 * a \<le> y - 1969 \<and> y - 1969 < 4 * a + 4"
    and "100 * b \<le> y - 1901 \<and> y - 1901 < 100 * b + 100"
    and "400 * c \<le> y - 1601 \<and> y - 1601 < 400 * c + 400"
  shows "146097 * y - 287811596 \<le> 400 * (365 * (y - 1970) + a - b + c) \<and>
         400 * (365 * (y - 1970) + a - b + c) \<le> 146097 * y - 287810501"
proof -
  from assms have "400 * a \<le> 100 * y - 196900" "100 * y - 197200 \<le> 400 * a"
    "400 * b \<le> 4 * y - 7604" "4 * y - 8000 \<le> 400 * b"
    "400 * c \<le> y - 1601" "y - 2000 \<le> 400 * c"
    by simp_all
  then show ?thesis by simp
qed

lemma DayFromYear_bounds:
  "146097 * y - 287811596 \<le> 400 * DayFromYear y \<and> 400 * DayFromYear y \<le> 146097 * y - 287810501"
  unfolding DayFromYear_def
  by (rule leap_terms_bounds; rule div_bounds; simp)

lemma estimate_bounds:
  fixes q d lo hi y :: int
  assumes "146097 * q \<le> 400 * d \<and> 400 * d < 146097 * q + 146097"
    and "y = 1970 + q"
    and "400 * lo \<le> 146097 * (y - 1) - 287810501"
    and "146097 * (y + 2) - 287811596 \<le> 400 * hi"
  shows "lo \<le> d \<and> d < hi"
  using assms by simp

lemma YearFromDay_correct:
  "DayFromYear (YearFromDay d) \<le> d \<and> d < DayFromYear (YearFromDay d + 1)"
proof -
  define y where "y = 1970 + (400 * d) div 146097"
  have q: "146097 * ((400 * d) div 146097) \<le> 400 * d \<and>
      400 * d < 146097 * ((400 * d) div 146097) + 146097"
    by (rule div_bounds) simp
  have "DayFromYear (y - 1) \<le> d \<and> d < DayFromYear (y + 2)"
    using q y_def DayFromYear_bounds [of "y - 1", THEN conjunct2]
      DayFromYear_bounds [of "y + 2", THEN conjunct1]
    by (rule estimate_bounds)
  then have lo: "DayFromYear (y - 1) \<le> d" and hi: "d < DayFromYear (y + 1 + 1)"
    by (simp_all add: add.assoc)
  have e: "YearFromDay d =
      (if d < DayFromYear y then y - 1 else if DayFromYear (y + 1) \<le> d then y + 1 else y)"
    by (simp add: YearFromDay_def y_def Let_def)
  show ?thesis
  proof (cases "d < DayFromYear y")
    case True
    with lo e show ?thesis by simp
  next
    case False
    show ?thesis
    proof (cases "DayFromYear (y + 1) \<le> d")
      case True
      with False e have "YearFromDay d = y + 1" by simp
      with True hi show ?thesis by (simp only:)
    next
      case False
      with \<open>\<not> d < DayFromYear y\<close> e show ?thesis by simp
    qed
  qed
qed


lemma div_step:
  fixes x k :: int
  assumes "0 < k"
  shows "(x + 1) div k = x div k + (if (x + 1) mod k = 0 then 1 else 0)"
proof (cases "x mod k = k - 1")
  case True
  have "x = k * (x div k) + x mod k" by simp
  with True have "x + 1 = k * (x div k) + k" by linarith
  then have e: "x + 1 = k * (x div k + 1) + 0" by (simp add: algebra_simps)
  have "(x + 1) div k = x div k + 1"
    using e assms by (intro int_div_pos_eq [where r = 0]) simp_all
  moreover have "(x + 1) mod k = 0"
    using e assms by (intro int_mod_pos_eq [where q = "x div k + 1"]) simp_all
  ultimately show ?thesis by simp
next
  case False
  have m: "0 \<le> x mod k \<and> x mod k < k" using assms by simp
  with False have r: "0 \<le> x mod k + 1 \<and> x mod k + 1 < k" by linarith
  have "x = k * (x div k) + x mod k" by simp
  then have e: "x + 1 = k * (x div k) + (x mod k + 1)" by linarith
  have "(x + 1) div k = x div k"
    using e r by (intro int_div_pos_eq [where r = "x mod k + 1"]) simp_all
  moreover have "(x + 1) mod k = x mod k + 1"
    using e r by (intro int_mod_pos_eq [where q = "x div k"]) simp_all
  ultimately show ?thesis using m by simp
qed

lemma mod_shift:
  fixes y :: int
  shows "(y - 1968) mod 4 = y mod 4" "(y - 1900) mod 100 = y mod 100"
    "(y - 1600) mod 400 = y mod 400"
proof -
  have "y - 1968 = y + (- 492) * 4" "y - 1900 = y + (- 19) * 100" "y - 1600 = y + (- 4) * 400"
    by simp_all
  then show "(y - 1968) mod 4 = y mod 4" "(y - 1900) mod 100 = y mod 100"
    "(y - 1600) mod 400 = y mod 400"
    by (simp_all only: mod_mult_self1)
qed

lemma DayFromYear_step: "DayFromYear (y + 1) = DayFromYear y + DaysInYear y"
proof -
  have a: "(y - 1968) div 4 = (y - 1969) div 4 + (if y mod 4 = 0 then 1 else 0)"
    using div_step [of 4 "y - 1969"] mod_shift(1) [of y] by simp
  have b: "(y - 1900) div 100 = (y - 1901) div 100 + (if y mod 100 = 0 then 1 else 0)"
    using div_step [of 100 "y - 1901"] mod_shift(2) [of y] by simp
  have c: "(y - 1600) div 400 = (y - 1601) div 400 + (if y mod 400 = 0 then 1 else 0)"
    using div_step [of 400 "y - 1601"] mod_shift(3) [of y] by simp
  have d1: "y mod 100 = 0 \<Longrightarrow> y mod 4 = 0"
    using mod_mod_cancel [of 4 100 y] by simp
  have d2: "y mod 400 = 0 \<Longrightarrow> y mod 100 = 0"
    using mod_mod_cancel [of 100 400 y] by simp
  have "DayFromYear (y + 1) =
      365 * (y - 1969) + (y - 1968) div 4 - (y - 1900) div 100 + (y - 1600) div 400"
    by (simp add: DayFromYear_def)
  also have "\<dots> = DayFromYear y + DaysInYear y"
    using d1 d2 unfolding a b c DayFromYear_def DaysInYear_def by auto
  finally show ?thesis .
qed

lemma DaysInYear_cases: "DaysInYear y = 365 \<or> DaysInYear y = 366"
  by (simp add: DaysInYear_def)

lemma DayFromYear_mono: "y \<le> z \<Longrightarrow> DayFromYear y \<le> DayFromYear z"
proof (induction z rule: int_ge_induct)
  case base
  show ?case by simp
next
  case (step z)
  with DayFromYear_step [of z] DaysInYear_cases [of z] show ?case by auto
qed

lemma YearFromDay_largest: "DayFromYear y \<le> d \<longleftrightarrow> y \<le> YearFromDay d"
proof
  assume "y \<le> YearFromDay d"
  then have "DayFromYear y \<le> DayFromYear (YearFromDay d)" by (rule DayFromYear_mono)
  with YearFromDay_correct [of d] show "DayFromYear y \<le> d" by linarith
next
  assume h: "DayFromYear y \<le> d"
  show "y \<le> YearFromDay d"
  proof (rule ccontr)
    assume "\<not> y \<le> YearFromDay d"
    then have "YearFromDay d + 1 \<le> y" by simp
    then have "DayFromYear (YearFromDay d + 1) \<le> DayFromYear y" by (rule DayFromYear_mono)
    with YearFromDay_correct [of d] h show False by linarith
  qed
qed

lemma DayWithinYear_range:
  "0 \<le> DayWithinYear t \<and> DayWithinYear t < DaysInYear (YearFromTime t)"
  using YearFromDay_correct [of "Day t"] DayFromYear_step [of "YearFromDay (Day t)"]
  by (simp add: DayWithinYear_def YearFromTime_def)

subsection \<open>Decimal strings\<close>


lemma digit_char_inj: "a < 10 \<Longrightarrow> b < 10 \<Longrightarrow> digit_char a = digit_char b \<Longrightarrow> a = b"
  unfolding digit_char_def by (simp split: if_splits) arith

lemma digit_char_not_minus [simp]: "digit_char d \<noteq> CHR ''-''" "CHR ''-'' \<noteq> digit_char d"
  unfolding digit_char_def by simp_all

lemma digits_nonempty [simp]: "digits n \<noteq> []"
  by (subst digits.simps) simp

lemma length_digits_small: "n < 10 \<Longrightarrow> length (digits n) = 1"
  by (subst digits.simps) simp

lemma length_digits_large: "10 \<le> n \<Longrightarrow> 2 \<le> length (digits n)"
proof -
  assume h: "10 \<le> n"
  have "digits n = digits (n div 10) @ [digit_char (n mod 10)]"
    using h by (subst digits.simps) simp
  moreover have "1 \<le> length (digits (n div 10))"
    using digits_nonempty [of "n div 10"] by (cases "digits (n div 10)") simp_all
  ultimately show ?thesis by simp
qed

lemma digits_inj: "digits m = digits n \<Longrightarrow> m = n"
proof (induction m arbitrary: n rule: digits.induct)
  case (1 m)
  show ?case
  proof (cases "m < 10")
    case msmall: True
    show ?thesis
    proof (cases "n < 10")
      case True
      with msmall "1.prems" show ?thesis
        by (simp add: digits.simps [of m] digits.simps [of n] digit_char_inj)
    next
      case False
      then have "2 \<le> length (digits n)" by (simp add: length_digits_large)
      moreover from msmall have "length (digits m) = 1" by (rule length_digits_small)
      moreover from "1.prems" have "length (digits m) = length (digits n)" by simp
      ultimately show ?thesis by simp
    qed
  next
    case mlarge: False
    show ?thesis
    proof (cases "n < 10")
      case True
      from mlarge have "2 \<le> length (digits m)" by (simp add: length_digits_large)
      moreover from True have "length (digits n) = 1" by (rule length_digits_small)
      moreover from "1.prems" have "length (digits m) = length (digits n)" by simp
      ultimately show ?thesis by simp
    next
      case False
      from mlarge have em: "digits m = digits (m div 10) @ [digit_char (m mod 10)]"
        by (subst digits.simps) simp
      from False have en: "digits n = digits (n div 10) @ [digit_char (n mod 10)]"
        by (subst digits.simps) simp
      from "1.prems" em en have a: "digits (m div 10) = digits (n div 10)"
        and b: "digit_char (m mod 10) = digit_char (n mod 10)" by simp_all
      from "1.IH" [OF mlarge a] have q: "m div 10 = n div 10" .
      from b have r: "m mod 10 = n mod 10" by (rule digit_char_inj [rotated 2]) simp_all
      from q r show ?thesis by (metis div_mult_mod_eq)
    qed
  qed
qed

lemma digits_no_minus: "CHR ''-'' \<notin> set (digits n)"
proof (induction n rule: digits.induct)
  case (1 n)
  show ?case
  proof (cases "n < 10")
    case True
    then show ?thesis by (subst digits.simps) simp
  next
    case False
    with "1.IH" show ?thesis by (subst digits.simps) simp
  qed
qed

lemma toString_inj: "toString a = toString b \<Longrightarrow> a = b"
proof -
  assume h: "toString a = toString b"
  have hd: "\<And>n. hd (digits n) \<noteq> CHR ''-''"
    using digits_no_minus digits_nonempty by (metis hd_in_set)
  show ?thesis
  proof (cases "a < 0")
    case an: True
    show ?thesis
    proof (cases "b < 0")
      case True
      with an h have "digits (nat (- a)) = digits (nat (- b))" by (simp add: toString_def)
      then have "nat (- a) = nat (- b)" by (rule digits_inj)
      with an True show ?thesis by simp
    next
      case False
      with an h have "CHR ''-'' # digits (nat (- a)) = digits (nat b)" by (simp add: toString_def)
      then have "hd (digits (nat b)) = CHR ''-''" by (metis list.sel(1))
      with hd show ?thesis by simp
    qed
  next
    case ap: False
    show ?thesis
    proof (cases "b < 0")
      case True
      with ap h have "digits (nat a) = CHR ''-'' # digits (nat (- b))" by (simp add: toString_def)
      then have "hd (digits (nat a)) = CHR ''-''" by (metis list.sel(1))
      with hd show ?thesis by simp
    next
      case False
      with ap h have "digits (nat a) = digits (nat b)" by (simp add: toString_def)
      then have "nat a = nat b" by (rule digits_inj)
      with ap False show ?thesis by simp
    qed
  qed
qed

lemma MonthFromTime_range: "0 \<le> MonthFromTime t \<and> MonthFromTime t \<le> 11"
  unfolding MonthFromTime_def Let_def by simp

lemma length_pad2_small: "0 \<le> k \<Longrightarrow> k < 100 \<Longrightarrow> length (padStart 2 (toString k)) = 2"
proof -
  assume h: "0 \<le> k" "k < 100"
  show ?thesis
  proof (cases "k < 10")
    case True
    with h have "length (digits (nat k)) = 1" by (simp add: length_digits_small)
    with h show ?thesis by (simp add: padStart_def toString_def)
  next
    case False
    with h have e: "digits (nat k) = digits (nat k div 10) @ [digit_char (nat k mod 10)]"
      by (subst digits.simps) simp
    from False h have "nat k div 10 < 10" by simp
    then have "length (digits (nat k div 10)) = 1" by (rule length_digits_small)
    with e have "length (digits (nat k)) = 2" by simp
    with h show ?thesis by (simp add: padStart_def toString_def)
  qed
qed

lemma pad2_inj: 
  assumes "0 \<le> a" "a < 100" "0 \<le> b" "b < 100" "padStart 2 (toString a) = padStart 2 (toString b)"
  shows "a = b"
proof -
  have dz: "\<And>n. 10 \<le> n \<Longrightarrow> n < 100 \<Longrightarrow> digits n = [digit_char (n div 10), digit_char (n mod 10)]"
    by (subst digits.simps, simp, subst digits.simps, simp)
  have ds: "\<And>n. n < 10 \<Longrightarrow> digits n = [digit_char n]"
    by (subst digits.simps) simp
  have p: "\<And>k. 0 \<le> k \<Longrightarrow> k < 100 \<Longrightarrow>
     padStart 2 (toString k) = [digit_char (nat k div 10), digit_char (nat k mod 10)]"
  proof -
    fix k :: int assume h: "0 \<le> k" "k < 100"
    show "padStart 2 (toString k) = [digit_char (nat k div 10), digit_char (nat k mod 10)]"
    proof (cases "k < 10")
      case True
      with h show ?thesis by (simp add: padStart_def toString_def ds digit_char_def)
    next
      case False
      with h show ?thesis by (simp add: padStart_def toString_def dz)
    qed
  qed
  from assms p have "digit_char (nat a div 10) = digit_char (nat b div 10)"
    and "digit_char (nat a mod 10) = digit_char (nat b mod 10)" by simp_all
  moreover from assms have "nat a div 10 < 10" "nat b div 10 < 10" by simp_all
  ultimately have "nat a div 10 = nat b div 10" "nat a mod 10 = nat b mod 10"
    by (auto intro: digit_char_inj)
  then have "nat a = nat b" by (metis div_mult_mod_eq)
  with assms show ?thesis by simp
qed


subsection \<open>The monthly key\<close>

text \<open>
  Claim C8. Two dates have the same monthly period key if and only if they fall in the same
  calendar month of the same calendar year (in the local time of the device, which is what
  \<^verbatim>\<open>getFullYear\<close> and \<^verbatim>\<open>getMonth\<close> read); the years may be equal or differ.
\<close>

theorem monthly_period_same_month_iff:
  "getCurrentPeriod tza d1 ''monthly'' = getCurrentPeriod tza d2 ''monthly'' \<longleftrightarrow>
     getFullYear tza d1 = getFullYear tza d2 \<and> getMonth tza d1 = getMonth tza d2"
proof
  assume h: "getCurrentPeriod tza d1 ''monthly'' = getCurrentPeriod tza d2 ''monthly''"
  let ?m1 = "getMonth tza d1 + 1" and ?m2 = "getMonth tza d2 + 1"
  have r1: "0 \<le> ?m1 \<and> ?m1 < 100" and r2: "0 \<le> ?m2 \<and> ?m2 < 100"
    using MonthFromTime_range [of "LocalTime tza d1"] MonthFromTime_range [of "LocalTime tza d2"]
    by (simp_all add: getMonth_def)
  have l: "length (padStart 2 (toString ?m1)) = length (padStart 2 (toString ?m2))"
    using r1 r2 by (simp add: length_pad2_small)
  from h have "toString (getFullYear tza d1) @ ''-'' @ padStart 2 (toString ?m1)
      = toString (getFullYear tza d2) @ ''-'' @ padStart 2 (toString ?m2)"
    by (simp add: getCurrentPeriod_def)
  with l have y: "toString (getFullYear tza d1) = toString (getFullYear tza d2)"
    and m: "padStart 2 (toString ?m1) = padStart 2 (toString ?m2)"
    by simp_all
  from y have "getFullYear tza d1 = getFullYear tza d2" by (rule toString_inj)
  moreover from m r1 r2 have "?m1 = ?m2" by (intro pad2_inj) simp_all
  ultimately show "getFullYear tza d1 = getFullYear tza d2 \<and> getMonth tza d1 = getMonth tza d2"
    by simp
next
  assume "getFullYear tza d1 = getFullYear tza d2 \<and> getMonth tza d1 = getMonth tza d2"
  then show "getCurrentPeriod tza d1 ''monthly'' = getCurrentPeriod tza d2 ''monthly''"
    by (simp add: getCurrentPeriod_def)
qed


subsection \<open>The weekly key\<close>








section \<open>Properties of the budget accounting\<close>

subsection \<open>The batch of updates\<close>


lemma write_ref_budget_write [simp]: "write_ref (budget_write tza now amt doc) = fst doc"
  by (simp add: budget_write_def Let_def)

lemma length_apply_write [simp]: "length (apply_write srv w bs) = length bs"
  by (simp add: apply_write_def)

lemma length_fold_apply_write [simp]: "length (fold (apply_write srv) ws bs) = length bs"
  by (induction ws arbitrary: bs) simp_all

lemma fold_apply_write_other:
  "i \<notin> write_ref ` set ws \<Longrightarrow> fold (apply_write srv) ws bs ! i = bs ! i"
  by (induction ws arbitrary: bs) (auto simp add: apply_write_def)

lemma fold_apply_write_hit:
  "distinct (map write_ref ws) \<Longrightarrow> w \<in> set ws \<Longrightarrow> write_ref w < length bs \<Longrightarrow>
   fold (apply_write srv) ws bs ! write_ref w = update_doc srv w (bs ! write_ref w)"
proof (induction ws arbitrary: bs)
  case Nil
  then show ?case by simp
next
  case (Cons v ws)
  show ?case
  proof (cases "v = w")
    case True
    with Cons.prems have "write_ref w \<notin> write_ref ` set ws" by auto
    then have "fold (apply_write srv) ws (apply_write srv w bs) ! write_ref w
        = apply_write srv w bs ! write_ref w"
      by (rule fold_apply_write_other)
    moreover have "apply_write srv w bs ! write_ref w = update_doc srv w (bs ! write_ref w)"
      using Cons.prems(3) by (simp add: apply_write_def)
    ultimately show ?thesis using True by simp
  next
    case False
    with Cons.prems have in_ws: "w \<in> set ws" and ne: "write_ref v \<noteq> write_ref w"
      and d: "distinct (map write_ref ws)" by auto
    have "fold (apply_write srv) ws (apply_write srv v bs) ! write_ref w
        = update_doc srv w (apply_write srv v bs ! write_ref w)"
      using d in_ws Cons.prems(3) by (intro Cons.IH) simp_all
    moreover have "apply_write srv v bs ! write_ref w = bs ! write_ref w"
      using ne by (simp add: apply_write_def)
    ultimately show ?thesis by simp
  qed
qed

lemma budgetsSnapshot_distinct: "distinct (map fst (budgetsSnapshot uid cat bs))"
  unfolding budgetsSnapshot_def by (rule distinct_map_filter) simp

lemma budgetsSnapshot_mem:
  "(i, b) \<in> set (budgetsSnapshot uid cat bs) \<longleftrightarrow>
     i < length bs \<and> b = bs ! i \<and> b_userId b = uid \<and> b_category b = cat \<and> isActive b"
  by (auto simp add: budgetsSnapshot_def in_set_enumerate_eq)

lemma batch_refs_distinct:
  "distinct (map write_ref (map (budget_write tza now amt) (budgetsSnapshot uid cat bs)))"
proof -
  have "map write_ref (map (budget_write tza now amt) (budgetsSnapshot uid cat bs))
      = map fst (budgetsSnapshot uid cat bs)"
    by simp
  then show ?thesis by (simp only: budgetsSnapshot_distinct)
qed

lemma updateBudgetSpending_doc:
  assumes user: "currentUser st = Some uid"
    and ok: "\<forall>c. \<not> env_failing e c"
    and i: "i < length (budgets st)"
    and m: "b_userId (budgets st ! i) = uid" "b_category (budgets st ! i) = cat"
      "isActive (budgets st ! i)"
  shows "budgets (updateBudgetSpending e cat A st) ! i =
     update_doc (env_serverTime e) (budget_write (env_tza e) (env_now e) A (i, budgets st ! i))
       (budgets st ! i)"
proof -
  let ?snap = "budgetsSnapshot uid cat (budgets st)"
  let ?ws = "map (budget_write (env_tza e) (env_now e) A) ?snap"
  let ?w = "budget_write (env_tza e) (env_now e) A (i, budgets st ! i)"
  from i m have "(i, budgets st ! i) \<in> set ?snap" by (simp add: budgetsSnapshot_mem)
  then have w: "?w \<in> set ?ws" by simp
  have c: "batch_commit e ?ws (budgets st) = Some (fold (apply_write (env_serverTime e)) ?ws (budgets st))"
    using ok by (simp add: batch_commit_def list_ex_iff)
  have "fold (apply_write (env_serverTime e)) ?ws (budgets st) ! write_ref ?w
      = update_doc (env_serverTime e) ?w (budgets st ! write_ref ?w)"
    using batch_refs_distinct w i by (intro fold_apply_write_hit) simp_all
  then show ?thesis using user ok c by (simp add: updateBudgetSpending_def)
qed


lemma or_default_self: "s \<noteq> NaN \<Longrightarrow> or_default (Some s) (Fin 0) = s"
  by (cases s) auto

text \<open>
  Claim C1. When the signed-in user records an expense of amount \<open>A\<close> on a category and no
  remote call fails, every active budget of the user on that category whose stored period key
  differs from the current period of its kind gets the current key and the accumulator \<open>A\<close>,
  whatever the accumulator was before.
\<close>

theorem rollover_resets_accumulator:
  assumes "currentUser st = Some uid"
    and "\<forall>c. \<not> env_failing e c"
    and "i < length (budgets st)"
    and "b_userId (budgets st ! i) = uid"
    and "b_category (budgets st ! i) = cat"
    and "isActive (budgets st ! i)"
    and "currentPeriod (budgets st ! i)
           \<noteq> Some (getCurrentPeriod (env_tza e) (env_now e) (budgetType (budgets st ! i)))"
  shows "currentPeriod (budgets (updateBudgetSpending e cat A st) ! i)
           = Some (getCurrentPeriod (env_tza e) (env_now e) (budgetType (budgets st ! i))) \<and>
         currentSpent (budgets (updateBudgetSpending e cat A st) ! i) = Some A"
  using assms(7)
  by (simp add: updateBudgetSpending_doc [OF assms(1-6)] budget_write_def update_doc_def Let_def)

theorem rollover_resets_accumulator_witness:
  "currentPeriod (budgets demo_state ! 1) = Some ''2024-05'' \<and>
   currentSpent (budgets demo_state ! 1) = Some (Fin 70) \<and>
   currentPeriod (budgets (updateBudgetSpending demo_env ''food-dining'' (Fin 30) demo_state) ! 1)
     = Some ''2024-06'' \<and>
   currentSpent (budgets (updateBudgetSpending demo_env ''food-dining'' (Fin 30) demo_state) ! 1)
     = Some (Fin 30)"
proof -
  have h1: "currentUser demo_state = Some ''u1''" by code_simp
  have h2: "\<forall>c. \<not> env_failing demo_env c" by (simp add: demo_env_def)
  have h3: "1 < length (budgets demo_state)" by code_simp
  have h4: "b_userId (budgets demo_state ! 1) = ''u1''" by code_simp
  have h5: "b_category (budgets demo_state ! 1) = ''food-dining''" by code_simp
  have h6: "isActive (budgets demo_state ! 1)" by code_simp
  have h7: "currentPeriod (budgets demo_state ! 1)
      \<noteq> Some (getCurrentPeriod (env_tza demo_env) (env_now demo_env)
                (budgetType (budgets demo_state ! 1)))"
    by code_simp
  have k: "getCurrentPeriod (env_tza demo_env) (env_now demo_env)
      (budgetType (budgets demo_state ! 1)) = ''2024-06''"
    by code_simp
  have p: "currentPeriod (budgets demo_state ! 1) = Some ''2024-05''" by code_simp
  have q: "currentSpent (budgets demo_state ! 1) = Some (Fin 70)" by code_simp
  from rollover_resets_accumulator [OF h1 h2 h3 h4 h5 h6 h7, of "Fin 30"] k p q
  show ?thesis by simp
qed

text \<open>
  Claim C2. When the signed-in user records an expense of amount \<open>A\<close> on a category and no
  remote call fails, every active budget of the user on that category whose stored period key
  equals the current period of its kind, and which stores an accumulator \<open>s\<close>, gets the
  accumulator \<open>s + A\<close> and keeps its period key.
\<close>

theorem same_period_adds_to_accumulator:
  assumes "currentUser st = Some uid"
    and "\<forall>c. \<not> env_failing e c"
    and "i < length (budgets st)"
    and "b_userId (budgets st ! i) = uid"
    and "b_category (budgets st ! i) = cat"
    and "isActive (budgets st ! i)"
    and "currentPeriod (budgets st ! i)
           = Some (getCurrentPeriod (env_tza e) (env_now e) (budgetType (budgets st ! i)))"
    and "currentSpent (budgets st ! i) = Some s"
    and "s \<noteq> NaN"
  shows "currentSpent (budgets (updateBudgetSpending e cat A st) ! i) = Some (js_add s A) \<and>
         currentPeriod (budgets (updateBudgetSpending e cat A st) ! i)
           = currentPeriod (budgets st ! i)"
  using assms(7-9)
  by (simp add: updateBudgetSpending_doc [OF assms(1-6)] budget_write_def update_doc_def Let_def
      or_default_self del: or_default.simps)

theorem same_period_adds_to_accumulator_witness:
  "currentPeriod (budgets demo_state ! 0) = Some ''2024-06'' \<and>
   currentSpent (budgets demo_state ! 0) = Some (Fin 85) \<and>
   currentSpent (budgets (updateBudgetSpending demo_env ''food-dining'' (Fin 10) demo_state) ! 0)
     = Some (Fin 95) \<and>
   currentPeriod (budgets (updateBudgetSpending demo_env ''food-dining'' (Fin 10) demo_state) ! 0)
     = Some ''2024-06''"
proof -
  have h1: "currentUser demo_state = Some ''u1''" by code_simp
  have h2: "\<forall>c. \<not> env_failing demo_env c" by (simp add: demo_env_def)
  have h3: "0 < length (budgets demo_state)" by code_simp
  have h4: "b_userId (budgets demo_state ! 0) = ''u1''" by code_simp
  have h5: "b_category (budgets demo_state ! 0) = ''food-dining''" by code_simp
  have h6: "isActive (budgets demo_state ! 0)" by code_simp
  have h7: "currentPeriod (budgets demo_state ! 0)
      = Some (getCurrentPeriod (env_tza demo_env) (env_now demo_env)
                (budgetType (budgets demo_state ! 0)))"
    by code_simp
  have h8: "currentSpent (budgets demo_state ! 0) = Some (Fin 85)" by code_simp
  have h9: "Fin 85 \<noteq> NaN" by simp
  have p: "currentPeriod (budgets demo_state ! 0) = Some ''2024-06''" by code_simp
  have s: "js_add (Fin 85) (Fin 10) = Fin 95" by code_simp
  note th = same_period_adds_to_accumulator [OF h1 h2 h3 h4 h5 h6 h7 h8 h9, of "Fin 10"]
  from th have "currentSpent
      (budgets (updateBudgetSpending demo_env ''food-dining'' (Fin 10) demo_state) ! 0)
      = Some (Fin 95)"
    by (simp only: s)
  moreover from th have "currentPeriod
      (budgets (updateBudgetSpending demo_env ''food-dining'' (Fin 10) demo_state) ! 0)
      = Some ''2024-06''"
    by (simp only: p)
  ultimately show ?thesis using p h8 by (intro conjI)
qed

text \<open>
  Claim C6, as stated: when the write to one budget fails, the other budgets of the batch are
  still updated. With two budgets on the category and the write to the first rejected, the
  second keeps its stale key and its accumulator of 70, where the update would have set the
  current key and the accumulator 10.
\<close>

theorem rejected_write_counterexample:
  "env_failing rejecting_env (WriteBudget 0) \<and> \<not> env_failing rejecting_env (WriteBudget 1) \<and>
   budgets (updateBudgetSpending rejecting_env ''food-dining'' (Fin 10) demo_state) ! 1
     = budgets demo_state ! 1 \<and>
   currentSpent (budgets (updateBudgetSpending rejecting_env ''food-dining'' (Fin 10) demo_state) ! 1)
     = Some (Fin 70) \<and>
   currentSpent (budgets (updateBudgetSpending demo_env ''food-dining'' (Fin 10) demo_state) ! 1)
     = Some (Fin 10)"
  by code_simp

text \<open>
  Claim C6, amended. The updates of all active budgets on the category go into one batch with
  one commit. When the write to one of them is rejected, the commit fails as a whole: no
  budget is changed, the failure is written to the console only (no alert is shown), and
  nothing is tried again.
\<close>

theorem rejected_write_aborts_batch:
  assumes "currentUser st = Some uid"
    and "\<not> env_failing e GetBudgets"
    and "i < length (budgets st)"
    and "b_userId (budgets st ! i) = uid"
    and "b_category (budgets st ! i) = cat"
    and "isActive (budgets st ! i)"
    and "env_failing e (WriteBudget i)"
  shows "budgets (updateBudgetSpending e cat A st) = budgets st \<and>
         console (updateBudgetSpending e cat A st)
           = console st @ [''Error updating budget spending:''] \<and>
         alerts (updateBudgetSpending e cat A st) = alerts st"
proof -
  let ?snap = "budgetsSnapshot uid cat (budgets st)"
  let ?ws = "map (budget_write (env_tza e) (env_now e) A) ?snap"
  from assms have "(i, budgets st ! i) \<in> set ?snap" by (simp add: budgetsSnapshot_mem)
  then have "budget_write (env_tza e) (env_now e) A (i, budgets st ! i) \<in> set ?ws" by simp
  with assms(7) have "batch_commit e ?ws (budgets st) = None"
    unfolding batch_commit_def list_ex_iff
    by (metis write_ref_budget_write fst_conv)
  with assms(1,2) show ?thesis by (simp add: updateBudgetSpending_def)
qed

theorem rejected_write_aborts_batch_witness:
  "env_failing rejecting_env (WriteBudget 0) \<and>
   budgets (updateBudgetSpending rejecting_env ''food-dining'' (Fin 10) demo_state)
     = budgets demo_state \<and>
   console (updateBudgetSpending rejecting_env ''food-dining'' (Fin 10) demo_state)
     = [''Error updating budget spending:'']"
proof -
  have h1: "currentUser demo_state = Some ''u1''" by code_simp
  have h2: "\<not> env_failing rejecting_env GetBudgets" by code_simp
  have h3: "0 < length (budgets demo_state)" by code_simp
  have h4: "b_userId (budgets demo_state ! 0) = ''u1''" by code_simp
  have h5: "b_category (budgets demo_state ! 0) = ''food-dining''" by code_simp
  have h6: "isActive (budgets demo_state ! 0)" by code_simp
  have h7: "env_failing rejecting_env (WriteBudget 0)" by code_simp
  have c: "console demo_state = []" by code_simp
  from rejected_write_aborts_batch [OF h1 h2 h3 h4 h5 h6 h7, of "Fin 10"] h7 c
  show ?thesis by simp
qed

subsection \<open>Budget thresholds\<close>

lemma map_filter_if:
  "List.map_filter (\<lambda>x. if P x then Some (g x) else None) xs = map g (filter P xs)"
  by (induction xs) (simp_all add: List.map_filter_simps)

lemma budgetsSnapshot_docs:
  "map snd (budgetsSnapshot uid cat bs)
     = filter (\<lambda>b. b_userId b = uid \<and> b_category b = cat \<and> isActive b) bs"
proof -
  let ?Q = "\<lambda>b. b_userId b = uid \<and> b_category b = cat \<and> isActive b"
  have "budgetsSnapshot uid cat bs = filter (?Q \<circ> snd) (enumerate 0 bs)"
    by (simp add: budgetsSnapshot_def comp_def case_prod_unfold)
  then have "map snd (budgetsSnapshot uid cat bs) = filter ?Q (map snd (enumerate 0 bs))"
    by (simp only: filter_map)
  then show ?thesis by simp
qed

lemma budget_alert_eq:
  "budget_alert tza now cat b =
     (if currentPeriod b = Some (getCurrentPeriod tza now (budgetType b)) \<and>
         js_ge (spent_ratio b) (Fin (9 / 10))
      then Some (if js_ge (spent_ratio b) (Fin 1)
                 then BudgetExceeded (budgetType b) cat (or_default (currentSpent b) (Fin 0))
                        (or_default (budgetAmount b) (Fin 0))
                 else BudgetAlert (js_mul (spent_ratio b) (Fin 100)) (budgetType b) cat
                        (or_default (currentSpent b) (Fin 0)) (or_default (budgetAmount b) (Fin 0)))
      else None)"
  using js_ge_one_nine_tenths [of "spent_ratio b"]
  by (auto simp add: budget_alert_def Let_def percentage_ge_100 percentage_ge_90 spent_ratio_def
      simp del: or_default.simps)

text \<open>
  Claim C3. The alert check looks at the active budgets of the signed-in user on the category
  of the expense. For each of them whose stored period key equals the current period, with
  the ratio accumulator / budget amount as JavaScript computes it, the check shows ``Budget
  Exceeded!'' exactly when the ratio is at least 1, ``Budget Alert'' exactly when the ratio is
  at least 0.9 and below 1, and nothing when it is below 0.9; in the order of the documents,
  and nothing besides.
\<close>

theorem checkBudgetAlerts_thresholds:
  assumes "currentUser st = Some uid"
    and "\<not> env_failing e GetBudgets"
  shows "alerts (checkBudgetAlerts e cat A st) =
     alerts st @
       map (\<lambda>b. if js_ge (spent_ratio b) (Fin 1)
                then BudgetExceeded (budgetType b) cat (or_default (currentSpent b) (Fin 0))
                       (or_default (budgetAmount b) (Fin 0))
                else BudgetAlert (js_mul (spent_ratio b) (Fin 100)) (budgetType b) cat
                       (or_default (currentSpent b) (Fin 0)) (or_default (budgetAmount b) (Fin 0)))
         (filter (\<lambda>b. b_userId b = uid \<and> b_category b = cat \<and> isActive b \<and>
                    currentPeriod b = Some (getCurrentPeriod (env_tza e) (env_now e) (budgetType b)) \<and>
                    js_ge (spent_ratio b) (Fin (9 / 10)))
            (budgets st))"
proof -
  let ?P = "\<lambda>b. currentPeriod b = Some (getCurrentPeriod (env_tza e) (env_now e) (budgetType b)) \<and>
      js_ge (spent_ratio b) (Fin (9 / 10))"
  let ?g = "\<lambda>b. if js_ge (spent_ratio b) (Fin 1)
      then BudgetExceeded (budgetType b) cat (or_default (currentSpent b) (Fin 0))
             (or_default (budgetAmount b) (Fin 0))
      else BudgetAlert (js_mul (spent_ratio b) (Fin 100)) (budgetType b) cat
             (or_default (currentSpent b) (Fin 0)) (or_default (budgetAmount b) (Fin 0))"
  let ?snap = "budgetsSnapshot uid cat (budgets st)"
  have "List.map_filter (\<lambda>doc. budget_alert (env_tza e) (env_now e) cat (snd doc)) ?snap
      = List.map_filter (\<lambda>doc. if (?P \<circ> snd) doc then Some ((?g \<circ> snd) doc) else None) ?snap"
    by (simp only: budget_alert_eq comp_def)
  also have "\<dots> = map (?g \<circ> snd) (filter (?P \<circ> snd) ?snap)"
    by (rule map_filter_if)
  also have "\<dots> = map ?g (filter ?P (map snd ?snap))"
    by (simp only: filter_map map_map)
  also have "\<dots> = map ?g (filter (\<lambda>b. b_userId b = uid \<and> b_category b = cat \<and> isActive b \<and>
      currentPeriod b = Some (getCurrentPeriod (env_tza e) (env_now e) (budgetType b)) \<and>
      js_ge (spent_ratio b) (Fin (9 / 10))) (budgets st))"
    by (simp only: budgetsSnapshot_docs filter_filter conj_assoc)
  finally show ?thesis
    using assms by (simp add: checkBudgetAlerts_def)
qed

theorem checkBudgetAlerts_thresholds_witness:
  "updateBudgetSpending demo_env ''food-dining'' (Fin 10) demo_state = updated_state \<and>
   alerts (checkBudgetAlerts later_env ''food-dining'' (Fin 10) updated_state)
     = [BudgetAlert (Fin 95) ''monthly'' ''food-dining'' (Fin 95) (Fin 100)] \<and>
   updateBudgetSpending demo_env ''food-dining'' (Fin 20) demo_state = exceeded_state \<and>
   alerts (checkBudgetAlerts later_env ''food-dining'' (Fin 20) exceeded_state)
     = [BudgetExceeded ''monthly'' ''food-dining'' (Fin 105) (Fin 100)]"
proof -
  have h1: "currentUser updated_state = Some ''u1''" by code_simp
  have h2: "\<not> env_failing later_env GetBudgets" by code_simp
  have h3: "currentUser exceeded_state = Some ''u1''" by code_simp
  have u: "updateBudgetSpending demo_env ''food-dining'' (Fin 10) demo_state = updated_state"
    by code_simp
  have v: "updateBudgetSpending demo_env ''food-dining'' (Fin 20) demo_state = exceeded_state"
    by code_simp
  have w: "alerts (checkBudgetAlerts later_env ''food-dining'' (Fin 10) updated_state)
      = [BudgetAlert (Fin 95) ''monthly'' ''food-dining'' (Fin 95) (Fin 100)]"
    unfolding checkBudgetAlerts_thresholds [OF h1 h2] by code_simp
  have x: "alerts (checkBudgetAlerts later_env ''food-dining'' (Fin 20) exceeded_state)
      = [BudgetExceeded ''monthly'' ''food-dining'' (Fin 105) (Fin 100)]"
    unfolding checkBudgetAlerts_thresholds [OF h3 h2] by code_simp
  from u w v x show ?thesis by (intro conjI)
qed

subsection \<open>The monthly overspending check\<close>

text \<open>
  Claim C4 at an input where the code departs from it. A user with a limit of 1000 and 930
  spent this month saves an expense of 10. The expenses of the month, the new one included,
  then sum to 940, at or above 90\% of the limit, and no warning is shown: the only alert
  is the success message of the save. The total the check compares is 950, the new amount
  counted a second time.
\<close>

theorem overspending_check_at_failing_input:
  "map_of (users near_limit_state) ''u1'' = Some \<lparr>overspendingAlerts = Some (Fin 1000)\<rparr> \<and>
   sum_amounts (expenses (saveExpense demo_env near_limit_state)) = Fin 940 \<and>
   js_ge (Fin 940) (js_mul (Fin 1000) (js_div (Fin 90) (Fin 100))) \<and>
   totalMonthlySpent later_env ''u1'' (Fin 10) (expenses (saveExpense demo_env near_limit_state))
     = Fin 950 \<and>
   alerts (runTimer later_env (saveExpense demo_env near_limit_state)) = [SuccessAlert (Fin 10)]"
  by code_simp

text \<open>
  At that input the user is signed in and the form passes the guards of the save, so the
  expense is stored and the checks are scheduled; they show nothing.
\<close>

theorem overspending_check_at_failing_input_witness:
  "currentUser near_limit_state = Some ''u1'' \<and>
   truthy (amount (expenseData near_limit_state)) \<and>
   \<not> js_le (amount (expenseData near_limit_state)) (Fin 0) \<and>
   trim (merchantName (expenseData near_limit_state)) \<noteq> [] \<and>
   length (expenses (saveExpense demo_env near_limit_state)) = 2 \<and>
   alerts (runTimer later_env (saveExpense demo_env near_limit_state)) = [SuccessAlert (Fin 10)]"
proof -
  have u: "currentUser near_limit_state = Some ''u1''" by code_simp
  have t: "truthy (amount (expenseData near_limit_state))" by code_simp
  have p: "\<not> js_le (amount (expenseData near_limit_state)) (Fin 0)" by code_simp
  have m: "trim (merchantName (expenseData near_limit_state)) \<noteq> []" by code_simp
  have n: "length (expenses (saveExpense demo_env near_limit_state)) = 2" by code_simp
  from overspending_check_at_failing_input
  have "alerts (runTimer later_env (saveExpense demo_env near_limit_state)) = [SuccessAlert (Fin 10)]"
    by (elim conjE)
  with u t p m n show ?thesis by (intro conjI)
qed

section \<open>Properties of saving an expense\<close>

text \<open>
  Claim C7. Without a signed-in user, saving an expense stops with an error alert before any
  write: no expense is added, no budget is changed and no check is scheduled; the budget
  update itself does nothing without a user.
\<close>

theorem unauthenticated_save_writes_nothing:
  assumes "currentUser st = None"
  shows "expenses (saveExpense e st) = expenses st \<and>
         budgets (saveExpense e st) = budgets st \<and>
         timers (saveExpense e st) = timers st \<and>
         alerts (saveExpense e st) = alerts st @ [ErrorAlert ''You must be logged in to save expenses''] \<and>
         updateBudgetSpending e cat A st = st"
  using assms by (simp add: saveExpense_def updateBudgetSpending_def)

theorem unauthenticated_save_writes_nothing_witness:
  "expenses (saveExpense demo_env (demo_state\<lparr>currentUser := None\<rparr>)) = [] \<and>
   budgets (saveExpense demo_env (demo_state\<lparr>currentUser := None\<rparr>)) = [current_budget, stale_budget] \<and>
   alerts (saveExpense demo_env (demo_state\<lparr>currentUser := None\<rparr>))
     = [ErrorAlert ''You must be logged in to save expenses'']"
proof -
  have h: "currentUser (demo_state\<lparr>currentUser := None\<rparr>) = None" by simp
  from unauthenticated_save_writes_nothing [OF h, of demo_env]
  show ?thesis by (simp add: demo_state_def)
qed

lemma not_positive_rejected: "\<not> js_lt (Fin 0) a \<Longrightarrow> \<not> truthy a \<or> js_le a (Fin 0)"
  by (cases a) auto

lemma trim_whitespace_only:
  assumes "\<forall>c \<in> set s. js_whitespace c"
  shows "trim s = []"
proof -
  from assms have "dropWhile js_whitespace s = []" by (simp add: dropWhile_eq_Nil_conv)
  then show ?thesis unfolding trim_def by (simp only: rev.simps dropWhile.simps)
qed

text \<open>
  Claim C10. When the amount of the form is not strictly positive (zero, negative or NaN; text
  that does not parse is stored as 0) or the merchant name is empty or only white space,
  saving is refused with one error alert and writes nothing: no expense is added, no budget
  is changed and no check is scheduled.
\<close>

theorem invalid_form_rejected:
  assumes "\<not> js_lt (Fin 0) (amount (expenseData st)) \<or>
           (\<forall>c \<in> set (merchantName (expenseData st)). js_whitespace c)"
  shows "expenses (saveExpense e st) = expenses st \<and>
         budgets (saveExpense e st) = budgets st \<and>
         timers (saveExpense e st) = timers st \<and>
         (\<exists>msg. alerts (saveExpense e st) = alerts st @ [ErrorAlert msg])"
proof -
  from assms have "\<not> truthy (amount (expenseData st)) \<or> js_le (amount (expenseData st)) (Fin 0)
      \<or> trim (merchantName (expenseData st)) = []"
    using not_positive_rejected trim_whitespace_only by blast
  then show ?thesis
    by (cases "currentUser st") (auto simp add: saveExpense_def)
qed

theorem invalid_form_rejected_witness:
  "amount (expenseData (onChangeAmount NaN demo_state)) = Fin 0 \<and>
   expenses (saveExpense demo_env (onChangeAmount NaN demo_state)) = [] \<and>
   budgets (saveExpense demo_env (onChangeAmount NaN demo_state)) = [current_budget, stale_budget] \<and>
   (\<exists>msg. alerts (saveExpense demo_env (onChangeAmount NaN demo_state)) = [ErrorAlert msg])"
proof -
  have z: "amount (expenseData (onChangeAmount NaN demo_state)) = Fin 0"
    by (simp add: onChangeAmount_def)
  then have h: "\<not> js_lt (Fin 0) (amount (expenseData (onChangeAmount NaN demo_state))) \<or>
      (\<forall>c \<in> set (merchantName (expenseData (onChangeAmount NaN demo_state))). js_whitespace c)"
    by simp
  from invalid_form_rejected [OF h, of demo_env] z
  show ?thesis by (simp add: onChangeAmount_def demo_state_def)
qed

section \<open>Properties of the relay\<close>

lemma extraction_started_iff:
  "extraction_started (extract_text r file) \<longleftrightarrow>
     (\<exists>f. file = Some f \<and> mimetype f = ''application/pdf'' \<and> filesize f < 10 * 1024 * 1024)"
  by (cases "file") (auto simp add: extract_text_def split: ocr_outcome.splits)

lemma analysis_started_iff:
  "analysis_started (extract_text r file) \<longleftrightarrow>
     extraction_started (extract_text r file) \<and> (\<exists>extracted. ocr r = Extracted extracted)"
  by (cases "file") (auto simp add: extract_text_def split: ocr_outcome.splits)

text \<open>
  Claim C5, as stated: a timed-out text extraction still gives a success response with an
  all-null analysis. For a PDF upload whose extraction times out the relay answers with
  status 500 and an error body.
\<close>

theorem relay_timeout_counterexample:
  "\<not> spec_null_success (extract_text timeout_relay (Some pdf_upload)) \<and>
   status (extract_text timeout_relay (Some pdf_upload)) = 500 \<and>
   body (extract_text timeout_relay (Some pdf_upload))
     = ErrorBody ''Failed to extract text from PDF'' (Some ''Text extraction timeout'')"
  by (simp add: extract_text_def timeout_relay_def pdf_upload_def spec_null_success_def)

text \<open>
  Claim C5, amended. When the relay calls the LLM and the call fails or its output does not
  parse as JSON, the response is a success whose analysis has all five fields null. When the
  relay starts the text extraction and it times out, the response has status 500 and an
  error body, and no analysis is started. An upload that is not a PDF is rejected with an
  error response before any extraction is started.
\<close>

theorem relay_degrades_llm_failure_only:
  "(analysis_started (extract_text r file) \<and> llm_unusable r \<longrightarrow>
        spec_null_success (extract_text r file)) \<and>
   (extraction_started (extract_text r file) \<and> ocr r = ExtractionTimeout \<longrightarrow>
        status (extract_text r file) = 500 \<and>
        body (extract_text r file)
          = ErrorBody ''Failed to extract text from PDF'' (Some ''Text extraction timeout'') \<and>
        \<not> analysis_started (extract_text r file)) \<and>
   (file = Some f \<and> mimetype f \<noteq> ''application/pdf'' \<longrightarrow>
        status (extract_text r file) = 500 \<and>
        body (extract_text r file) = ErrorBody ''Only PDF files are allowed!'' None \<and>
        \<not> extraction_started (extract_text r file))"
proof -
  have a: "analyzeFinancialDocument r extracted = null_analysis" if "llm_unusable r" for extracted
    using that
    by (simp add: llm_unusable_def analyzeFinancialDocument_def
        split: llm_outcome.splits option.splits)
  have one: "analysis_started (extract_text r file) \<and> llm_unusable r \<longrightarrow>
        spec_null_success (extract_text r file)"
    by (cases "file")
      (auto simp add: extract_text_def spec_null_success_def a split: ocr_outcome.splits)
  have two: "extraction_started (extract_text r file) \<and> ocr r = ExtractionTimeout \<longrightarrow>
        status (extract_text r file) = 500 \<and>
        body (extract_text r file)
          = ErrorBody ''Failed to extract text from PDF'' (Some ''Text extraction timeout'') \<and>
        \<not> analysis_started (extract_text r file)"
    by (cases "file") (auto simp add: extract_text_def)
  have three: "file = Some f \<and> mimetype f \<noteq> ''application/pdf'' \<longrightarrow>
        status (extract_text r file) = 500 \<and>
        body (extract_text r file) = ErrorBody ''Only PDF files are allowed!'' None \<and>
        \<not> extraction_started (extract_text r file)"
    by (simp add: extract_text_def)
  from one two three show ?thesis by (intro conjI)
qed

theorem relay_degrades_llm_failure_only_witness:
  "analysis_started (extract_text failing_llm_relay (Some pdf_upload)) \<and>
   llm_unusable failing_llm_relay \<and>
   spec_null_success (extract_text failing_llm_relay (Some pdf_upload)) \<and>
   extraction_started (extract_text timeout_relay (Some pdf_upload)) \<and>
   status (extract_text timeout_relay (Some pdf_upload)) = 500 \<and>
   \<not> extraction_started (extract_text timeout_relay (Some (pdf_upload\<lparr>mimetype := ''image/png''\<rparr>)))"
proof -
  have s: "analysis_started (extract_text failing_llm_relay (Some pdf_upload))"
    by (simp add: extract_text_def failing_llm_relay_def timeout_relay_def pdf_upload_def)
  have l: "llm_unusable failing_llm_relay"
    by (simp add: failing_llm_relay_def timeout_relay_def llm_unusable_def)
  have e: "extraction_started (extract_text timeout_relay (Some pdf_upload))"
    by (simp add: extract_text_def timeout_relay_def pdf_upload_def)
  have t: "ocr timeout_relay = ExtractionTimeout"
    by (simp add: timeout_relay_def)
  have n: "Some (pdf_upload\<lparr>mimetype := ''image/png''\<rparr>) = Some (pdf_upload\<lparr>mimetype := ''image/png''\<rparr>) \<and>
      mimetype (pdf_upload\<lparr>mimetype := ''image/png''\<rparr>) \<noteq> ''application/pdf''"
    by simp
  have one: "spec_null_success (extract_text failing_llm_relay (Some pdf_upload))"
    using relay_degrades_llm_failure_only [of failing_llm_relay "Some pdf_upload"] s l
    by (simp only: simp_thms)
  have two: "status (extract_text timeout_relay (Some pdf_upload)) = 500"
    using relay_degrades_llm_failure_only [of timeout_relay "Some pdf_upload"] e t
    by (simp only: simp_thms)
  have three: "\<not> extraction_started
      (extract_text timeout_relay (Some (pdf_upload\<lparr>mimetype := ''image/png''\<rparr>)))"
    using relay_degrades_llm_failure_only
      [of timeout_relay "Some (pdf_upload\<lparr>mimetype := ''image/png''\<rparr>)"
          "pdf_upload\<lparr>mimetype := ''image/png''\<rparr>"] n
    by (simp only: simp_thms)
  from s l one e two three show ?thesis by (intro conjI)
qed

end
